theory Spec2Isabelle
  imports Complex_Main
begin

section \<open>Errors\<close>

text \<open>
  Every exception the two modules can raise is a value of \<open>error\<close>; a computation that
  may raise returns \<open>error + 'a\<close>, with \<open>Inl\<close> for the exception. \<open>ExternalError\<close> stands
  for whatever a library called by the module raises on its own.
\<close>

datatype error =
    ValueError
  | AssertionError
  | KeyError
  | IndexError
  | AttributeError
  | NotImplementedError
  | TypeError
  | ZeroDivisionError
  | OverflowError
  | Exception
  | ExternalError

section \<open>Grid search (mtuq/grid\_search.py)\<close>

subsection \<open>Two-dimensional arrays\<close>

text \<open>
  A two-dimensional numpy array is its shape together with its rows. The element type is
  left open: the grid search never computes with the entries, it only moves them.
\<close>

record 'a ndarray =
  nrows :: nat
  ncols :: nat
  rows :: "'a list list"

definition well_shaped :: "'a ndarray \<Rightarrow> bool" where
  "well_shaped a \<longleftrightarrow>
     length (rows a) = nrows a \<and> list_all (\<lambda>r. length r = ncols a) (rows a)"

definition is_column :: "nat \<Rightarrow> 'a ndarray \<Rightarrow> bool" where
  "is_column m a \<longleftrightarrow> nrows a = m \<and> ncols a = 1 \<and> well_shaped a"

definition column_of :: "'a list \<Rightarrow> 'a ndarray" where
  "column_of xs = \<lparr>nrows = length xs, ncols = 1, rows = map (\<lambda>x. [x]) xs\<rparr>"

definition column :: "'a ndarray \<Rightarrow> nat \<Rightarrow> 'a ndarray" where
  "column a i = \<lparr>nrows = nrows a, ncols = 1, rows = map (\<lambda>r. [r ! i]) (rows a)\<rparr>"

text \<open>
  \<^verbatim>\<open>np.concatenate(arrays, axis=1)\<close>: raises on an empty list and when the arrays
  disagree in their number of rows; otherwise row \<open>j\<close> of the result is the rows \<open>j\<close> of the
  arguments, one after the other.
\<close>

fun concatenate_axis1 :: "'a ndarray list \<Rightarrow> error + 'a ndarray" where
  "concatenate_axis1 [] = Inl ValueError"
| "concatenate_axis1 (a # as) =
     (if list_all (\<lambda>b. nrows b = nrows a) as
      then Inr \<lparr>nrows = nrows a,
                ncols = sum_list (map ncols (a # as)),
                rows = map (\<lambda>j. concat (map (\<lambda>b. rows b ! j) (a # as))) [0..<nrows a]\<rparr>
      else Inl ValueError)"

text \<open>
  \<^verbatim>\<open>np.concatenate(arrays)\<close>, along axis 0: raises on an empty list and when the arrays
  disagree in their number of columns; otherwise the rows of the arguments follow each other.
\<close>

fun concatenate_axis0 :: "'a ndarray list \<Rightarrow> error + 'a ndarray" where
  "concatenate_axis0 [] = Inl ValueError"
| "concatenate_axis0 (a # as) =
     (if list_all (\<lambda>b. ncols b = ncols a) as
      then Inr \<lparr>nrows = sum_list (map nrows (a # as)),
                ncols = ncols a,
                rows = concat (map rows (a # as))\<rparr>
      else Inl ValueError)"

subsection \<open>The serial evaluator\<close>

text \<open>\<^verbatim>\<open>ProgressCallback(start=..., stop=..., percent=...)\<close>: the reporter handed to the misfit.\<close>

record progress =
  start :: nat
  stop :: nat
  percent :: nat

text \<open>
  The misfit is an injected callable \<^verbatim>\<open>misfit(data, greens, sources, msg_handle)\<close>, and
  \<^verbatim>\<open>greens.select(origin)\<close> is a method of the Green's function list; both are parameters
  of the model. \<^verbatim>\<open>sources\<close> is a list of source mechanisms, \<^verbatim>\<open>origins\<close> a list of origins
  (\<^verbatim>\<open>iterable\<close> returns a list as it is). The decorator \<^verbatim>\<open>@timer\<close> reports the running
  time and hands the result on unchanged.
\<close>

type_synonym ('d, 'g, 's, 'a) misfit = "'d \<Rightarrow> 'g \<Rightarrow> 's list \<Rightarrow> progress \<Rightarrow> 'a ndarray"

text \<open>
  The loop \<^verbatim>\<open>for _i, origin in enumerate(origins): results += [misfit(...)]\<close>; \<open>i\<close> is the
  index of the origin at the head of the list, \<open>ni\<close> and \<open>nj\<close> are the two lengths taken before
  the loop.
\<close>

fun serial_loop ::
  "('d, 'g, 's, 'a) misfit \<Rightarrow> ('g \<Rightarrow> 'o \<Rightarrow> 'g) \<Rightarrow> 'd \<Rightarrow> 'g \<Rightarrow> 's list \<Rightarrow> nat \<Rightarrow> nat \<Rightarrow> nat \<Rightarrow>
   nat \<Rightarrow> 'o list \<Rightarrow> 'a ndarray list \<Rightarrow> 'a ndarray list" where
  "serial_loop misfit select data greens sources msg_interval ni nj i [] results = results"
| "serial_loop misfit select data greens sources msg_interval ni nj i (origin # rest) results =
     (let msg_handle = \<lparr>start = i * nj, stop = ni * nj, percent = msg_interval\<rparr>
      in serial_loop misfit select data greens sources msg_interval ni nj (i + 1) rest
           (results @ [misfit data (select greens origin) sources msg_handle]))"

definition grid_search_serial ::
  "('d, 'g, 's, 'a) misfit \<Rightarrow> ('g \<Rightarrow> 'o \<Rightarrow> 'g) \<Rightarrow> 'd \<Rightarrow> 'g \<Rightarrow> 'o list \<Rightarrow> 's list \<Rightarrow> nat \<Rightarrow>
   error + 'a ndarray" where
  "grid_search_serial misfit select data greens origins sources msg_interval =
     (let ni = length origins;
          nj = length sources;
          results = serial_loop misfit select data greens sources msg_interval ni nj 0 origins []
      in concatenate_axis1 results)"

subsection \<open>The parallel driver\<close>

text \<open>
  What \<^verbatim>\<open>_is_mpi_env\<close> looks at: whether \<^verbatim>\<open>mpi4py\<close> and \<^verbatim>\<open>mpi4py.MPI\<close> import, and the
  size of \<^verbatim>\<open>COMM_WORLD\<close>; \<open>comm_rank\<close> is the rank of the calling process.
\<close>

record mpi_env =
  mpi4py_imports :: bool
  mpi4py_MPI_imports :: bool
  comm_size :: nat
  comm_rank :: nat

definition is_mpi_env :: "mpi_env \<Rightarrow> bool" where
  "is_mpi_env env =
     (if \<not> mpi4py_imports env then False
      else if \<not> mpi4py_MPI_imports env then False
      else if comm_size env > 1 then True
      else False)"

text \<open>
  \<^verbatim>\<open>comm.scatter(parts, root=0)\<close> hands part \<open>k\<close> to rank \<open>k\<close> and raises unless there is one
  part per process.
\<close>

definition scatter :: "mpi_env \<Rightarrow> 'p list \<Rightarrow> error + 'p" where
  "scatter env parts =
     (if length parts = comm_size env \<and> comm_rank env < comm_size env
      then Inr (parts ! comm_rank env) else Inl ValueError)"

text \<open>
  \<^verbatim>\<open>comm.allgather(results)\<close> followed by \<^verbatim>\<open>np.concatenate\<close>: the per-rank results in rank
  order, joined along the source axis. A rank that raised brings the collective down.
\<close>

fun collect :: "(error + 'b) list \<Rightarrow> error + 'b list" where
  "collect [] = Inr []"
| "collect (Inl e # rs) = Inl e"
| "collect (Inr x # rs) = (case collect rs of Inl e \<Rightarrow> Inl e | Inr xs \<Rightarrow> Inr (x # xs))"

definition gather :: "(error + 'a ndarray) list \<Rightarrow> error + 'a ndarray" where
  "gather rs = (case collect rs of Inl e \<Rightarrow> Inl e | Inr as \<Rightarrow> concatenate_axis0 as)"

text \<open>
  \<^verbatim>\<open>grid_search\<close> as one process sees it, all processes having been called with the same
  arguments. \<^verbatim>\<open>sources.partition(nproc)\<close> belongs to the grid class and is the parameter
  \<open>sources_partition\<close>. Rank \<open>k\<close> evaluates part \<open>k\<close>, with progress messages switched off
  (\<^verbatim>\<open>msg_interval = 0\<close>) everywhere but on rank 0.
\<close>

definition rank_msg_interval :: "nat \<Rightarrow> nat \<Rightarrow> nat" where
  "rank_msg_interval iproc msg_interval = (if iproc \<noteq> 0 then 0 else msg_interval)"

text \<open>What each rank computes, in rank order: the serial evaluator on its own part.\<close>

definition per_rank ::
  "('d, 'g, 's, 'a) misfit \<Rightarrow> ('g \<Rightarrow> 'o \<Rightarrow> 'g) \<Rightarrow> 'd \<Rightarrow> 'g \<Rightarrow> 'o list \<Rightarrow> nat \<Rightarrow> 's list list \<Rightarrow>
   (error + 'a ndarray) list" where
  "per_rank misfit select data greens origins msg_interval parts =
     map (\<lambda>(k, part). grid_search_serial misfit select data greens origins part
            (rank_msg_interval k msg_interval)) (enumerate 0 parts)"

definition grid_search ::
  "mpi_env \<Rightarrow> ('s list \<Rightarrow> nat \<Rightarrow> 's list list) \<Rightarrow> ('d, 'g, 's, 'a) misfit \<Rightarrow> ('g \<Rightarrow> 'o \<Rightarrow> 'g) \<Rightarrow>
   'd \<Rightarrow> 'g \<Rightarrow> 'o list \<Rightarrow> 's list \<Rightarrow> nat \<Rightarrow> bool \<Rightarrow> error + 'a ndarray" where
  "grid_search env sources_partition misfit select data greens origins sources msg_interval allgather =
     (if is_mpi_env env then
        (let iproc = comm_rank env;
             nproc = comm_size env;
             parts = sources_partition sources nproc
         in case scatter env parts of
              Inl e \<Rightarrow> Inl e
            | Inr mine \<Rightarrow>
                (let results = grid_search_serial misfit select data greens origins mine
                                 (rank_msg_interval iproc msg_interval)
                 in if allgather
                    then gather (per_rank misfit select data greens origins msg_interval parts)
                    else results))
      else grid_search_serial misfit select data greens origins sources msg_interval)"

subsection \<open>Sample inputs\<close>

text \<open>
  Two misfit callables, both pure functions of their arguments. The first scores every
  source with the size of the grid it was handed; the second scores each source on its own.
\<close>

definition grid_size_misfit :: "(unit, unit, nat, nat) misfit" where
  "grid_size_misfit data greens sources msg_handle =
     column_of (map (\<lambda>s. length sources) sources)"

definition offset_misfit :: "(unit, nat, nat, nat) misfit" where
  "offset_misfit data greens sources msg_handle = column_of (map (\<lambda>s. greens + s) sources)"

definition select_all :: "unit \<Rightarrow> unit \<Rightarrow> unit" where
  "select_all greens origin = greens"

definition select_origin :: "nat \<Rightarrow> nat \<Rightarrow> nat" where
  "select_origin greens origin = greens + origin"

definition halves :: "nat list \<Rightarrow> nat \<Rightarrow> nat list list" where
  "halves sources nproc = [take (length sources div 2) sources, drop (length sources div 2) sources]"

definition no_mpi :: mpi_env where
  "no_mpi = \<lparr>mpi4py_imports = False, mpi4py_MPI_imports = False, comm_size = 1, comm_rank = 0\<rparr>"

section \<open>Waveform processing (mtuq/process\_data.py)\<close>

text \<open>
  Python floats are modelled as reals. Keyword arguments arrive as a dictionary from names to
  values; a value is a number or a string, and a value of the wrong kind raises \<open>TypeError\<close>
  where an operation needs the other kind.
\<close>

datatype pvalue = Num real | Str string

type_synonym parameters = "string \<rightharpoonup> pvalue"

definition num_of :: "pvalue \<Rightarrow> error + real" where
  "num_of v = (case v of Num x \<Rightarrow> Inr x | Str s \<Rightarrow> Inl TypeError)"

definition str_of :: "pvalue \<Rightarrow> error + string" where
  "str_of v = (case v of Str s \<Rightarrow> Inr s | Num x \<Rightarrow> Inl TypeError)"

text \<open>\<^verbatim>\<open>parameters[key]\<close> read as a number, and as a string.\<close>

definition get_num :: "parameters \<Rightarrow> string \<Rightarrow> error + real" where
  "get_num ps key = (case ps key of None \<Rightarrow> Inl KeyError | Some v \<Rightarrow> num_of v)"

definition get_str :: "parameters \<Rightarrow> string \<Rightarrow> error + string" where
  "get_str ps key = (case ps key of None \<Rightarrow> Inl KeyError | Some v \<Rightarrow> str_of v)"

text \<open>\<^verbatim>\<open>x**-1\<close> on a float.\<close>

definition reciprocal :: "real \<Rightarrow> error + real" where
  "reciprocal x = (if x = 0 then Inl ZeroDivisionError else Inr (1 / x))"

text \<open>
  The range of a float. A result whose magnitude reaches \<open>2^1024 - 2^970\<close>, half-way
  between the largest float and \<open>2^1024\<close>, rounds to infinity; a positive quotient from
  \<open>2^-1022\<close> up to that bound is a positive float in the normal range.
\<close>

definition float_overflow :: "real \<Rightarrow> bool" where
  "float_overflow r \<longleftrightarrow> 2 ^ 1024 - 2 ^ 970 \<le> \<bar>r\<bar>"

definition float_positive :: "real \<Rightarrow> bool" where
  "float_positive r \<longleftrightarrow> 1 / 2 ^ 1022 \<le> r \<and> \<not> float_overflow r"

definition checked_float :: "real \<Rightarrow> error + real" where
  "checked_float r = (if float_overflow r then Inl OverflowError else Inr r)"

text \<open>
  \<^verbatim>\<open>x**y\<close> on floats: a zero base with a negative exponent and a negative base with a
  fractional exponent raise, and so does a result out of the range of a float.
\<close>

definition py_pow :: "real \<Rightarrow> real \<Rightarrow> error + real" where
  "py_pow x y =
     (if 0 < x then checked_float (x powr y)
      else if x = 0 then
        (if y < 0 then Inl ZeroDivisionError else if y = 0 then Inr 1 else Inr 0)
      else if y \<in> \<int> then checked_float (x powi \<lfloor>y\<rfloor>)
      else Inl ValueError)"

text \<open>\<^verbatim>\<open>not x\<close> is false for a non-empty string only.\<close>

definition truthy :: "string option \<Rightarrow> bool" where
  "truthy x = (case x of None \<Rightarrow> False | Some s \<Rightarrow> s \<noteq> [])"

text \<open>\<^verbatim>\<open>os.path.basename\<close>.\<close>

definition basename :: "string \<Rightarrow> string" where
  "basename path = rev (takeWhile (\<lambda>c. c \<noteq> CHR ''/'') (rev path))"

text \<open>\<^verbatim>\<open>str.upper\<close> on one character of a channel code (ASCII).\<close>

definition upper :: "char \<Rightarrow> char" where
  "upper c =
     (case map_of (zip ''abcdefghijklmnopqrstuvwxyz'' ''ABCDEFGHIJKLMNOPQRSTUVWXYZ'') c of
        None \<Rightarrow> c | Some C \<Rightarrow> C)"

subsection \<open>Traces, bundles and the processor object\<close>

text \<open>The SAC header fields \<^verbatim>\<open>t1\<close>, \<^verbatim>\<open>t2\<close>, \<^verbatim>\<open>t5\<close> and \<^verbatim>\<open>t6\<close>.\<close>

record sac_headers =
  sac_t1 :: real
  sac_t2 :: real
  sac_t5 :: real
  sac_t6 :: real

text \<open>
  A trace: of its header (\<^verbatim>\<open>trace.stats\<close>) the channel code, the number of samples and the
  sampling interval; its samples; and the two attributes the processor reads or writes,
  \<^verbatim>\<open>trace.weight\<close> and \<^verbatim>\<open>trace.sac\<close>, each possibly unset.
\<close>

record trace =
  channel :: string
  npts :: nat
  delta :: real
  data :: "real list"
  weight :: "real option"
  sac :: "sac_headers option"

record station =
  station_latitude :: real
  station_longitude :: real

record origin =
  latitude :: real
  longitude :: real
  depth_in_m :: real
  time :: real

text \<open>
  A bundle of traces is an obspy stream with attributes attached: the list of its traces, and
  \<^verbatim>\<open>id\<close>, \<^verbatim>\<open>tags\<close>, \<^verbatim>\<open>station\<close>, \<^verbatim>\<open>origin\<close> and \<^verbatim>\<open>preliminary_origin\<close>, each possibly
  missing.
\<close>

record stream =
  traces :: "trace list"
  stream_id :: "string option"
  tags :: "string list option"
  stream_station :: "station option"
  stream_origin :: "origin option"
  preliminary_origin :: "origin option"

text \<open>An entry of \<^verbatim>\<open>self._picks\<close>: an attribute dictionary that may hold \<^verbatim>\<open>P\<close> and \<^verbatim>\<open>S\<close>.\<close>

record pick =
  pick_P :: "real option"
  pick_S :: "real option"

definition empty_pick :: pick where
  "empty_pick = \<lparr>pick_P = None, pick_S = None\<rparr>"

text \<open>
  The attributes of a \<^verbatim>\<open>ProcessData\<close> object. An attribute that only some branches of the
  constructor assign is an option; reading it while unset raises \<open>AttributeError\<close>.
\<close>

record process_data =
  filter_type :: "string option"
  freq_min :: "real option"
  freq_max :: "real option"
  freq :: "real option"
  pick_type :: "string option"
  taup_model :: "string option"
  fk_database :: "string option"
  fk_model :: "string option"
  pick_file :: "string option"
  picks :: "string \<rightharpoonup> pick"
  window_type :: "string option"
  window_length :: "pvalue option"
  windows :: "string \<rightharpoonup> real \<times> real"
  padding_length :: "pvalue option"
  weights :: "(string \<rightharpoonup> real list) option"
  scaling_power :: "pvalue option"
  scaling_distance :: "pvalue option"
  weight_type :: "string option"

definition new_object :: process_data where
  "new_object =
     \<lparr>filter_type = None, freq_min = None, freq_max = None, freq = None,
      pick_type = None, taup_model = None, fk_database = None, fk_model = None,
      pick_file = None, picks = Map.empty,
      window_type = None, window_length = None, windows = Map.empty, padding_length = None,
      weights = None, scaling_power = None, scaling_distance = None, weight_type = None\<rparr>"

text \<open>
  What the module takes from outside: the file system, the weight-file parser, the travel-time
  and geodesy libraries, the readers of metadata and pick files, and the signal-processing
  operations on one trace. They are parameters of the model, gathered in one record.
  \<open>pick_file_rows\<close> gives the rows of a pick file as the csv reader yields them (comment lines
  dropped, fields split on blanks), \<open>float_of\<close> is Python's \<^verbatim>\<open>float\<close> on a string, and
  \<open>read_fk_headers\<close> gets the database, the model name and the two rounded distances that the
  source formats into a file name.
\<close>

type_synonym arrivals = "(string \<times> real) list"

record world =
  path_exists :: "string \<Rightarrow> bool"
  parse_weight_file :: "string \<Rightarrow> error + (string \<rightharpoonup> real list)"
  taup_model_known :: "string \<Rightarrow> bool"
  gps2dist_azimuth :: "real \<Rightarrow> real \<Rightarrow> real \<Rightarrow> real \<Rightarrow> real \<times> real \<times> real"
  m_to_deg :: "real \<Rightarrow> real"
  get_travel_times :: "string \<Rightarrow> real \<Rightarrow> real \<Rightarrow> string list \<Rightarrow> error + arrivals"
  get_arrival :: "arrivals \<Rightarrow> string \<Rightarrow> error + real"
  read_fk_headers :: "string \<Rightarrow> string \<Rightarrow> int \<Rightarrow> int \<Rightarrow> error + sac_headers"
  pick_file_rows :: "string \<Rightarrow> error + string list list"
  float_of :: "string \<Rightarrow> error + real"
  detrend :: "string \<Rightarrow> trace \<Rightarrow> trace"
  taper_hann :: "real \<Rightarrow> trace \<Rightarrow> trace"
  filter_bandpass :: "real \<Rightarrow> real \<Rightarrow> trace \<Rightarrow> trace"
  filter_lowpass :: "real \<Rightarrow> trace \<Rightarrow> trace"
  filter_highpass :: "real \<Rightarrow> trace \<Rightarrow> trace"
  cut :: "trace \<Rightarrow> real \<Rightarrow> real \<Rightarrow> trace"
  taper :: "real list \<Rightarrow> real list"

subsection \<open>The constructor\<close>

definition has_key :: "parameters \<Rightarrow> string \<Rightarrow> bool" where
  "has_key ps key \<longleftrightarrow> ps key \<noteq> None"

text \<open>
  \<^verbatim>\<open>parameters[freq_key] = parameters[period_key]**-1\<close>: the dictionary with the frequency
  entered.
\<close>

definition period_to_freq :: "parameters \<Rightarrow> string \<Rightarrow> string \<Rightarrow> error + parameters" where
  "period_to_freq ps period_key freq_key =
     (case get_num ps period_key of
        Inl e \<Rightarrow> Inl e
      | Inr period \<Rightarrow>
          (case reciprocal period of
             Inl e \<Rightarrow> Inl e
           | Inr f \<Rightarrow> Inr (ps(freq_key \<mapsto> Num f))))"

text \<open>
  The branch \<^verbatim>\<open>filter_type == 'Bandpass'\<close>. The comparison with \<^verbatim>\<open>np.inf\<close> holds for
  every real and is left out.
\<close>

definition check_bandpass :: "parameters \<Rightarrow> process_data \<Rightarrow> error + parameters \<times> process_data" where
  "check_bandpass parameters self =
     (case (if has_key parameters ''period_min'' \<and> has_key parameters ''period_max'' then
              (if has_key parameters ''freq_min'' then Inl AssertionError
               else if has_key parameters ''freq_max'' then Inl AssertionError
               else (case period_to_freq parameters ''period_max'' ''freq_min'' of
                       Inl e \<Rightarrow> Inl e
                     | Inr ps \<Rightarrow> period_to_freq ps ''period_min'' ''freq_max''))
            else Inr parameters) of
        Inl e \<Rightarrow> Inl e
      | Inr ps \<Rightarrow>
          if \<not> has_key ps ''freq_min'' then Inl ValueError
          else if \<not> has_key ps ''freq_max'' then Inl ValueError
          else (case get_num ps ''freq_min'' of
                  Inl e \<Rightarrow> Inl e
                | Inr fmin \<Rightarrow>
                    if \<not> 0 < fmin then Inl AssertionError
                    else (case get_num ps ''freq_max'' of
                            Inl e \<Rightarrow> Inl e
                          | Inr fmax \<Rightarrow>
                              if \<not> fmin < fmax then Inl AssertionError
                              else Inr (ps, self\<lparr>freq_min := Some fmin, freq_max := Some fmax\<rparr>))))"

text \<open>
  The branches \<^verbatim>\<open>'Lowpass'\<close> and \<^verbatim>\<open>'Highpass'\<close>, which differ in the bound they assert:
  \<^verbatim>\<open>0 < freq\<close> for the first, \<^verbatim>\<open>0 <= freq\<close> for the second.
\<close>

definition check_one_corner ::
  "bool \<Rightarrow> parameters \<Rightarrow> process_data \<Rightarrow> error + parameters \<times> process_data" where
  "check_one_corner allow_zero parameters self =
     (case (if has_key parameters ''period'' then
              (if has_key parameters ''freq'' then Inl AssertionError
               else period_to_freq parameters ''period'' ''freq'')
            else Inr parameters) of
        Inl e \<Rightarrow> Inl e
      | Inr ps \<Rightarrow>
          if \<not> has_key ps ''freq'' then Inl ValueError
          else (case get_num ps ''freq'' of
                  Inl e \<Rightarrow> Inl e
                | Inr f \<Rightarrow>
                    if \<not> (if allow_zero then 0 \<le> f else 0 < f) then Inl AssertionError
                    else Inr (ps, self\<lparr>freq := Some f\<rparr>)))"

definition check_filter ::
  "string option \<Rightarrow> parameters \<Rightarrow> process_data \<Rightarrow> error + parameters \<times> process_data" where
  "check_filter filter_type' parameters self =
     (case (case filter_type' of
              None \<Rightarrow> Inr (parameters, self)
            | Some ft \<Rightarrow>
                if ft = ''Bandpass'' then check_bandpass parameters self
                else if ft = ''Lowpass'' then check_one_corner False parameters self
                else if ft = ''Highpass'' then check_one_corner True parameters self
                else Inl ValueError) of
        Inl e \<Rightarrow> Inl e
      | Inr (ps, self1) \<Rightarrow> Inr (ps, self1\<lparr>filter_type := filter_type'\<rparr>))"

definition check_pick ::
  "world \<Rightarrow> string option \<Rightarrow> parameters \<Rightarrow> process_data \<Rightarrow> error + process_data" where
  "check_pick w pick_type' parameters self =
     (case (case pick_type' of
              None \<Rightarrow> Inl Exception
            | Some pt \<Rightarrow>
                if pt = ''from_taup_model'' then
                  (if \<not> has_key parameters ''taup_model'' then Inl AssertionError
                   else (case get_str parameters ''taup_model'' of
                           Inl e \<Rightarrow> Inl e
                         | Inr model \<Rightarrow>
                             if taup_model_known w model
                             then Inr (self\<lparr>taup_model := Some model\<rparr>)
                             else Inl ExternalError))
                else if pt = ''from_fk_metadata'' then
                  (if \<not> has_key parameters ''fk_database'' then Inl AssertionError
                   else (case get_str parameters ''fk_database'' of
                           Inl e \<Rightarrow> Inl e
                         | Inr db \<Rightarrow>
                             Inr (self\<lparr>fk_database := Some db, fk_model := Some (basename db)\<rparr>)))
                else if pt = ''from_sac_metadata'' then Inr self
                else if pt = ''from_cap_weight_file'' then Inl NotImplementedError
                else if pt = ''from_pick_file'' then
                  (case get_str parameters ''pick_file'' of
                     Inl e \<Rightarrow> Inl e
                   | Inr file \<Rightarrow>
                       if \<not> path_exists w file then Inl AssertionError
                       else Inr (self\<lparr>pick_file := Some file\<rparr>))
                else Inl ValueError) of
        Inl e \<Rightarrow> Inl e
      | Inr self1 \<Rightarrow> Inr (self1\<lparr>picks := Map.empty, pick_type := pick_type'\<rparr>))"

definition check_window ::
  "string option \<Rightarrow> parameters \<Rightarrow> process_data \<Rightarrow> error + process_data" where
  "check_window window_type' parameters self =
     (case (case window_type' of
              None \<Rightarrow> Inr ()
            | Some wt \<Rightarrow>
                if wt = ''cap_bw'' then
                  (if \<not> has_key parameters ''window_length'' then Inl AssertionError else Inr ())
                else if wt = ''cap_sw'' then
                  (if \<not> has_key parameters ''window_length'' then Inl AssertionError else Inr ())
                else Inl ValueError) of
        Inl e \<Rightarrow> Inl e
      | Inr u \<Rightarrow>
          (case parameters ''window_length'' of
             None \<Rightarrow> Inl KeyError
           | Some wl \<Rightarrow>
               Inr (self\<lparr>window_type := window_type',
                         window_length := Some wl,
                         windows := Map.empty,
                         padding_length :=
                           (if has_key parameters ''padding_length''
                            then parameters ''padding_length'' else Some (Num 0))\<rparr>)))"

text \<open>
  The branches \<^verbatim>\<open>'cap_bw'\<close> and \<^verbatim>\<open>'cap_sw'\<close> of the weight check, which differ in the
  default of \<^verbatim>\<open>scaling_power\<close> only. The test is on the key \<^verbatim>\<open>'scaling power'\<close>, the read on
  the key \<^verbatim>\<open>'scaling_power'\<close>, as in the source.
\<close>

definition check_cap_weight ::
  "world \<Rightarrow> real \<Rightarrow> parameters \<Rightarrow> process_data \<Rightarrow> error + process_data" where
  "check_cap_weight w default_power parameters self =
     (if \<not> has_key parameters ''cap_weight_file'' then Inl AssertionError
      else (case get_str parameters ''cap_weight_file'' of
              Inl e \<Rightarrow> Inl e
            | Inr file \<Rightarrow>
                if \<not> path_exists w file then Inl AssertionError
                else (case parse_weight_file w file of
                        Inl e \<Rightarrow> Inl e
                      | Inr table \<Rightarrow>
                          (case (if has_key parameters ''scaling power''
                                 then (case parameters ''scaling_power'' of
                                         None \<Rightarrow> Inl KeyError | Some v \<Rightarrow> Inr v)
                                 else Inr (Num default_power)) of
                             Inl e \<Rightarrow> Inl e
                           | Inr sp \<Rightarrow>
                               Inr (self\<lparr>weights := Some table,
                                         scaling_power := Some sp,
                                         scaling_distance :=
                                           (if has_key parameters ''scaling_distance''
                                            then parameters ''scaling_distance''
                                            else Some (Num 100000))\<rparr>)))))"

definition check_weight ::
  "world \<Rightarrow> string option \<Rightarrow> parameters \<Rightarrow> process_data \<Rightarrow> error + process_data" where
  "check_weight w weight_type' parameters self =
     (case (case weight_type' of
              None \<Rightarrow> Inr self
            | Some wt \<Rightarrow>
                if wt = ''cap_bw'' then check_cap_weight w 1 parameters self
                else if wt = ''cap_sw'' then check_cap_weight w 0.5 parameters self
                else Inl ValueError) of
        Inl e \<Rightarrow> Inl e
      | Inr self1 \<Rightarrow> Inr (self1\<lparr>weight_type := weight_type'\<rparr>))"

text \<open>\<^verbatim>\<open>ProcessData.__init__\<close>: the four checks in the order of the source.\<close>

definition ProcessData_init ::
  "world \<Rightarrow> string option \<Rightarrow> string option \<Rightarrow> string option \<Rightarrow> string option \<Rightarrow> parameters \<Rightarrow>
   error + process_data" where
  "ProcessData_init w filter_type' pick_type' window_type' weight_type' parameters =
     (case check_filter filter_type' parameters new_object of
        Inl e \<Rightarrow> Inl e
      | Inr (ps, self1) \<Rightarrow>
          (case check_pick w pick_type' ps self1 of
             Inl e \<Rightarrow> Inl e
           | Inr self2 \<Rightarrow>
               (case check_window window_type' ps self2 of
                  Inl e \<Rightarrow> Inl e
                | Inr self3 \<Rightarrow> check_weight w weight_type' ps self3)))"

subsection \<open>Invocation: units, filter, integration\<close>

text \<open>\<^verbatim>\<open>index = tags.index(old); tags[index] = new\<close>: the first occurrence is replaced.\<close>

fun replace_first :: "string \<Rightarrow> string \<Rightarrow> string list \<Rightarrow> string list" where
  "replace_first old new [] = []"
| "replace_first old new (x # xs) =
     (if x = old then new # xs else x # replace_first old new xs)"

definition convert_units :: "string list \<Rightarrow> trace list \<Rightarrow> string list \<times> trace list" where
  "convert_units tags' traces' =
     (if ''units:cm'' \<in> set tags'
      then (replace_first ''units:cm'' ''units:m'' tags',
            map (\<lambda>t. t\<lparr>data := map (\<lambda>x. x * (1 / 100)) (data t)\<rparr>) traces')
      else (tags', traces'))"

text \<open>The three calls that precede every filter.\<close>

definition prepare :: "world \<Rightarrow> trace \<Rightarrow> trace" where
  "prepare w t = taper_hann w 0.05 (detrend w ''linear'' (detrend w ''demean'' t))"

definition filter_traces :: "world \<Rightarrow> process_data \<Rightarrow> trace list \<Rightarrow> error + trace list" where
  "filter_traces w self traces' =
     (if filter_type self = Some ''Bandpass'' then
        (if traces' = [] then Inr []
         else (case freq_min self of
                 None \<Rightarrow> Inl AttributeError
               | Some fmin \<Rightarrow>
                   (case freq_max self of
                      None \<Rightarrow> Inl AttributeError
                    | Some fmax \<Rightarrow>
                        Inr (map (\<lambda>t. filter_bandpass w fmin fmax (prepare w t)) traces'))))
      else if filter_type self = Some ''Lowpass'' then
        (if traces' = [] then Inr []
         else (case freq self of
                 None \<Rightarrow> Inl AttributeError
               | Some f \<Rightarrow> Inr (map (\<lambda>t. filter_lowpass w f (prepare w t)) traces')))
      else if filter_type self = Some ''Highpass'' then
        (if traces' = [] then Inr []
         else (case freq self of
                 None \<Rightarrow> Inl AttributeError
               | Some f \<Rightarrow> Inr (map (\<lambda>t. filter_highpass w f (prepare w t)) traces')))
      else Inr traces')"

text \<open>\<^verbatim>\<open>np.cumsum\<close>.\<close>

fun cumsum_from :: "real \<Rightarrow> real list \<Rightarrow> real list" where
  "cumsum_from acc [] = []"
| "cumsum_from acc (x # xs) = (acc + x) # cumsum_from (acc + x) xs"

definition cumsum :: "real list \<Rightarrow> real list" where
  "cumsum xs = cumsum_from 0 xs"

definition to_displacement :: "real \<Rightarrow> string list \<Rightarrow> trace list \<Rightarrow> string list \<times> trace list" where
  "to_displacement dt tags' traces' =
     (if ''type:velocity'' \<in> set tags'
      then (replace_first ''type:velocity'' ''type:displacement'' tags',
            map (\<lambda>t. t\<lparr>data := map (\<lambda>x. x * dt) (cumsum (data t))\<rparr>) traces')
      else (tags', traces'))"

subsection \<open>Invocation: phase picks\<close>

text \<open>
  \<^verbatim>\<open>self._picks[key].P = x\<close> and \<^verbatim>\<open>self._picks[key].S = x\<close>: the dictionary creates an empty
  record for a key it does not hold yet.
\<close>

definition pick_entry :: "process_data \<Rightarrow> string \<Rightarrow> pick" where
  "pick_entry self key = (case picks self key of None \<Rightarrow> empty_pick | Some r \<Rightarrow> r)"

definition set_P :: "string \<Rightarrow> real \<Rightarrow> process_data \<Rightarrow> process_data" where
  "set_P key x self = self\<lparr>picks := (picks self)(key \<mapsto> (pick_entry self key)\<lparr>pick_P := Some x\<rparr>)\<rparr>"

definition set_S :: "string \<Rightarrow> real \<Rightarrow> process_data \<Rightarrow> process_data" where
  "set_S key x self = self\<lparr>picks := (picks self)(key \<mapsto> (pick_entry self key)\<lparr>pick_S := Some x\<rparr>)\<rparr>"

text \<open>\<^verbatim>\<open>try: get_arrival(arrivals, a) except: get_arrival(arrivals, b)\<close>.\<close>

definition arrival_or :: "world \<Rightarrow> arrivals \<Rightarrow> string \<Rightarrow> string \<Rightarrow> error + real" where
  "arrival_or w arr a b =
     (case get_arrival w arr a of Inr x \<Rightarrow> Inr x | Inl e \<Rightarrow> get_arrival w arr b)"

text \<open>
  The loop over the rows of the pick file. In each assignment the right-hand side is
  evaluated before the dictionary is touched.
\<close>

fun read_picks :: "world \<Rightarrow> string list list \<Rightarrow> process_data \<Rightarrow> (error + unit) \<times> process_data" where
  "read_picks w [] self = (Inr (), self)"
| "read_picks w (row # rest) self =
     (case row of
        [] \<Rightarrow> (Inl IndexError, self)
      | key # cols \<Rightarrow>
          (case cols of
             [] \<Rightarrow> (Inl IndexError, self)
           | f1 # cols2 \<Rightarrow>
               (case float_of w f1 of
                  Inl e \<Rightarrow> (Inl e, self)
                | Inr tp \<Rightarrow>
                    (case cols2 of
                       [] \<Rightarrow> (Inl IndexError, set_P key tp self)
                     | f2 # cols3 \<Rightarrow>
                         (case float_of w f2 of
                            Inl e \<Rightarrow> (Inl e, set_P key tp self)
                          | Inr ts \<Rightarrow> read_picks w rest (set_S key ts (set_P key tp self)))))))"

text \<open>
  Part 2 of \<^verbatim>\<open>__call__\<close>. The result is the exception raised, if any, together with the
  object as the stage leaves it: \<^verbatim>\<open>picks = self._picks[id]\<close> has entered an empty record
  before any strategy runs.
\<close>

definition determine_picks ::
  "world \<Rightarrow> process_data \<Rightarrow> string \<Rightarrow> origin \<Rightarrow> real \<Rightarrow> trace list \<Rightarrow>
   (error + unit) \<times> process_data" where
  "determine_picks w self id' origin' distance_in_m traces' =
     (if \<not> truthy (pick_type self) then (Inr (), self)
      else if picks self id' = None then
        (let self1 = self\<lparr>picks := (picks self)(id' \<mapsto> empty_pick)\<rparr> in
         if pick_type self = Some ''from_taup_model'' then
           (case taup_model self of
              None \<Rightarrow> (Inl AttributeError, self1)
            | Some model \<Rightarrow>
                (case get_travel_times w model (depth_in_m origin' / 1000)
                        (m_to_deg w distance_in_m) [''p'', ''s'', ''P'', ''S''] of
                   Inl e \<Rightarrow> (Inl e, self1)
                 | Inr arr \<Rightarrow>
                     (case arrival_or w arr ''p'' ''P'' of
                        Inl e \<Rightarrow> (Inl e, self1)
                      | Inr tp \<Rightarrow>
                          (case arrival_or w arr ''s'' ''S'' of
                             Inl e \<Rightarrow> (Inl e, set_P id' tp self1)
                           | Inr ts \<Rightarrow> (Inr (), set_S id' ts (set_P id' tp self1))))))
         else if pick_type self = Some ''from_fk_metadata'' then
           (case fk_database self of
              None \<Rightarrow> (Inl AttributeError, self1)
            | Some db \<Rightarrow>
                (case fk_model self of
                   None \<Rightarrow> (Inl AttributeError, self1)
                 | Some model \<Rightarrow>
                     (case read_fk_headers w db model \<lceil>depth_in_m origin' / 1000\<rceil>
                             \<lceil>distance_in_m / 1000\<rceil> of
                        Inl e \<Rightarrow> (Inl e, self1)
                      | Inr h \<Rightarrow> (Inr (), set_S id' (sac_t2 h) (set_P id' (sac_t1 h) self1)))))
         else if pick_type self = Some ''from_sac_metadata'' then
           (case traces' of
              [] \<Rightarrow> (Inl IndexError, self1)
            | first # others \<Rightarrow>
                (case sac first of
                   None \<Rightarrow> (Inl AttributeError, self1)
                 | Some h \<Rightarrow> (Inr (), set_S id' (sac_t6 h) (set_P id' (sac_t5 h) self1))))
         else if pick_type self = Some ''from_cap_weight_file'' then
           (Inl NotImplementedError, self1)
         else if pick_type self = Some ''from_pick_file'' then
           (case pick_file self of
              None \<Rightarrow> (Inl AttributeError, self1)
            | Some file \<Rightarrow>
                (case pick_file_rows w file of
                   Inl e \<Rightarrow> (Inl e, self1)
                 | Inr file_rows \<Rightarrow> read_picks w file_rows self1))
         else (Inr (), self1))
      else (Inr (), self))"

subsection \<open>Invocation: windows, cut and taper\<close>

text \<open>
  Part 3a. \<^verbatim>\<open>picks = self._picks[id]\<close> enters an empty record when the identifier has none;
  reading \<^verbatim>\<open>picks.P\<close> or \<^verbatim>\<open>picks.S\<close> from a record without it raises.
\<close>

definition cap_window :: "real \<Rightarrow> real \<Rightarrow> real \<Rightarrow> real \<Rightarrow> real \<times> real" where
  "cap_window arrival fraction length' origin_time =
     (let t1 = arrival - fraction * length';
          t2 = t1 + length'
      in (t1 + origin_time, t2 + origin_time))"

definition determine_window ::
  "process_data \<Rightarrow> string \<Rightarrow> origin \<Rightarrow> (error + unit) \<times> process_data" where
  "determine_window self id' origin' =
     (if \<not> truthy (window_type self) then (Inr (), self)
      else if windows self id' = None then
        (let origin_time = time origin';
             pk = pick_entry self id';
             self1 = self\<lparr>picks := (picks self)(id' \<mapsto> pk)\<rparr>
         in if window_type self = Some ''cap_bw'' then
              (case pick_P pk of
                 None \<Rightarrow> (Inl AttributeError, self1)
               | Some tp \<Rightarrow>
                   (case window_length self of
                      None \<Rightarrow> (Inl AttributeError, self1)
                    | Some v \<Rightarrow>
                        (case num_of v of
                           Inl e \<Rightarrow> (Inl e, self1)
                         | Inr wl \<Rightarrow>
                             (Inr (), self1\<lparr>windows := (windows self1)
                                (id' \<mapsto> cap_window tp 0.4 wl origin_time)\<rparr>))))
            else if window_type self = Some ''cap_sw'' then
              (case pick_S pk of
                 None \<Rightarrow> (Inl AttributeError, self1)
               | Some ts \<Rightarrow>
                   (case window_length self of
                      None \<Rightarrow> (Inl AttributeError, self1)
                    | Some v \<Rightarrow>
                        (case num_of v of
                           Inl e \<Rightarrow> (Inl e, self1)
                         | Inr wl \<Rightarrow>
                             (Inr (), self1\<lparr>windows := (windows self1)
                                (id' \<mapsto> cap_window ts 0.3 wl origin_time)\<rparr>))))
            else if window_type self = Some ''taup_bw'' then (Inl NotImplementedError, self1)
            else (Inr (), self1))
      else (Inr (), self))"

text \<open>
  Parts 3b and 3c up to the taper: the bounds come from the cached window of the identifier,
  widened by \<^verbatim>\<open>padding_length\<close> for a bundle tagged \<^verbatim>\<open>type:greens\<close>.
\<close>

definition cut_bounds :: "process_data \<Rightarrow> string \<Rightarrow> string list \<Rightarrow> error + real \<times> real" where
  "cut_bounds self id' tags' =
     (case windows self id' of
        None \<Rightarrow> Inl KeyError
      | Some window \<Rightarrow>
          if ''type:greens'' \<in> set tags' then
            (case padding_length self of
               None \<Rightarrow> Inl AttributeError
             | Some v \<Rightarrow>
                 (case num_of v of
                    Inl e \<Rightarrow> Inl e
                  | Inr pad \<Rightarrow> Inr (fst window - pad, snd window + pad)))
          else Inr (fst window, snd window))"

definition cut_traces ::
  "world \<Rightarrow> process_data \<Rightarrow> string \<Rightarrow> string list \<Rightarrow> trace list \<Rightarrow> error + trace list" where
  "cut_traces w self id' tags' traces' =
     (if \<not> truthy (window_type self) then Inr traces'
      else (case cut_bounds self id' tags' of
              Inl e \<Rightarrow> Inl e
            | Inr (starttime, endtime) \<Rightarrow> Inr (map (\<lambda>t. cut w t starttime endtime) traces')))"

definition taper_traces :: "world \<Rightarrow> trace list \<Rightarrow> trace list" where
  "taper_traces w traces' = map (\<lambda>t. t\<lparr>data := taper w (data t)\<rparr>) traces'"

subsection \<open>Invocation: weights\<close>

text \<open>\<^verbatim>\<open>self.weights[id][k]\<close> on a row of the weight table.\<close>

definition row_get :: "real list \<Rightarrow> nat \<Rightarrow> error + real" where
  "row_get row k = (if k < length row then Inr (row ! k) else Inl IndexError)"

text \<open>
  The weight of a component, as the two \<^verbatim>\<open>if/elif\<close> chains resolve it: body waves read
  columns 1 and 2 for \<^verbatim>\<open>Z\<close> and \<^verbatim>\<open>R\<close>, surface waves columns 3, 4 and 5 for \<^verbatim>\<open>Z\<close>, \<^verbatim>\<open>R\<close>
  and \<^verbatim>\<open>T\<close>.
\<close>

definition cap_bw_weight :: "(string \<rightharpoonup> real list) \<Rightarrow> string \<Rightarrow> char \<Rightarrow> error + real" where
  "cap_bw_weight table id' component =
     (case table id' of
        None \<Rightarrow> Inr 0
      | Some row \<Rightarrow>
          if component = CHR ''Z'' then row_get row 1
          else if component = CHR ''R'' then row_get row 2
          else Inr 0)"

definition cap_sw_weight :: "(string \<rightharpoonup> real list) \<Rightarrow> string \<Rightarrow> char \<Rightarrow> error + real" where
  "cap_sw_weight table id' component =
     (case table id' of
        None \<Rightarrow> Inr 0
      | Some row \<Rightarrow>
          if component = CHR ''Z'' then row_get row 3
          else if component = CHR ''R'' then row_get row 4
          else if component = CHR ''T'' then row_get row 5
          else Inr 0)"

definition resolve_weight :: "process_data \<Rightarrow> bool \<Rightarrow> string \<Rightarrow> char \<Rightarrow> error + real" where
  "resolve_weight self surface id' component =
     (case weights self of
        None \<Rightarrow> Inl AttributeError
      | Some table \<Rightarrow>
          if surface then cap_sw_weight table id' component
          else cap_bw_weight table id' component)"

text \<open>
  The bundle is an obspy stream. Its iterator runs over a copy of the list of traces made when
  the loop starts, so the loop visits every trace that was in the bundle, whatever is removed
  meanwhile; \<^verbatim>\<open>traces.remove(trace)\<close> deletes the first trace of the bundle that compares
  equal to its argument, and traces compare by header and samples. The trace objects are
  shared between the copy and the bundle: each is a pair of its identity (its position when
  the loop starts) and its value, and \<^verbatim>\<open>setattr\<close> changes the object of that identity.
\<close>

type_synonym trace_obj = "nat \<times> trace"

definition trace_eq :: "trace \<Rightarrow> trace \<Rightarrow> bool" where
  "trace_eq a b \<longleftrightarrow>
     channel a = channel b \<and> npts a = npts b \<and> delta a = delta b \<and> data a = data b"

fun remove_trace :: "trace \<Rightarrow> trace_obj list \<Rightarrow> error + trace_obj list" where
  "remove_trace t [] = Inl ValueError"
| "remove_trace t ((j, u) # rest) =
     (if trace_eq u t then Inr rest
      else (case remove_trace t rest of
              Inl e \<Rightarrow> Inl e
            | Inr rest' \<Rightarrow> Inr ((j, u) # rest')))"

definition setattr_weight :: "nat \<Rightarrow> real \<Rightarrow> trace_obj list \<Rightarrow> trace_obj list" where
  "setattr_weight i weight' current =
     map (\<lambda>(j, u). if j = i then (j, u\<lparr>weight := Some weight'\<rparr>) else (j, u)) current"

text \<open>
  The first loop of the branches \<^verbatim>\<open>'cap_bw'\<close> and \<^verbatim>\<open>'cap_sw'\<close>: the traces still to visit,
  and the bundle as it stands.
\<close>

fun weight_loop ::
  "(char \<Rightarrow> error + real) \<Rightarrow> string list \<Rightarrow> trace_obj list \<Rightarrow> trace_obj list \<Rightarrow>
   error + trace_obj list" where
  "weight_loop resolve tags' [] current = Inr current"
| "weight_loop resolve tags' ((i, t) # rest) current =
     (if ''type:greens'' \<in> set tags' then Inr current
      else if channel t \<noteq> [] then
        (case resolve (upper (last (channel t))) of
           Inl e \<Rightarrow> Inl e
         | Inr weight' \<Rightarrow>
             if weight' \<noteq> 0
             then weight_loop resolve tags' rest (setattr_weight i weight' current)
             else (case remove_trace t current of
                     Inl e \<Rightarrow> Inl e
                   | Inr current' \<Rightarrow> weight_loop resolve tags' rest current'))
      else weight_loop resolve tags' rest current)"

text \<open>\<^verbatim>\<open>(distance_in_m/self.scaling_distance)**self.scaling_power\<close>.\<close>

definition scaling_factor :: "process_data \<Rightarrow> real \<Rightarrow> error + real" where
  "scaling_factor self distance_in_m =
     (case scaling_distance self of
        None \<Rightarrow> Inl AttributeError
      | Some dv \<Rightarrow>
          (case num_of dv of
             Inl e \<Rightarrow> Inl e
           | Inr sd \<Rightarrow>
               if sd = 0 then Inl ZeroDivisionError
               else (case scaling_power self of
                       None \<Rightarrow> Inl AttributeError
                     | Some pv \<Rightarrow>
                         (case num_of pv of
                            Inl e \<Rightarrow> Inl e
                          | Inr sp \<Rightarrow> py_pow (distance_in_m / sd) sp))))"

text \<open>
  The second loop: every trace left in the bundle is multiplied by the scaling factor, then
  by the ad hoc factor 1.
\<close>

fun scale_loop :: "process_data \<Rightarrow> real \<Rightarrow> trace list \<Rightarrow> error + trace list" where
  "scale_loop self distance_in_m [] = Inr []"
| "scale_loop self distance_in_m (t # rest) =
     (case scaling_factor self distance_in_m of
        Inl e \<Rightarrow> Inl e
      | Inr c \<Rightarrow>
          (case scale_loop self distance_in_m rest of
             Inl e \<Rightarrow> Inl e
           | Inr rest' \<Rightarrow> Inr (t\<lparr>data := map (\<lambda>x. x * c * 1) (data t)\<rparr> # rest')))"

definition cap_weights ::
  "process_data \<Rightarrow> bool \<Rightarrow> string \<Rightarrow> real \<Rightarrow> string list \<Rightarrow> trace list \<Rightarrow> error + trace list" where
  "cap_weights self surface id' distance_in_m tags' traces' =
     (case weight_loop (resolve_weight self surface id') tags'
             (enumerate 0 traces') (enumerate 0 traces') of
        Inl e \<Rightarrow> Inl e
      | Inr current \<Rightarrow> scale_loop self distance_in_m (map snd current))"

text \<open>Part 4 of \<^verbatim>\<open>__call__\<close>.\<close>

definition determine_weights ::
  "process_data \<Rightarrow> string \<Rightarrow> real \<Rightarrow> string list \<Rightarrow> trace list \<Rightarrow> error + trace list" where
  "determine_weights self id' distance_in_m tags' traces' =
     (if \<not> truthy (weight_type self) then Inr (map (\<lambda>t. t\<lparr>weight := Some 1\<rparr>) traces')
      else if weight_type self = Some ''cap_bw''
        then cap_weights self False id' distance_in_m tags' traces'
      else if weight_type self = Some ''cap_sw''
        then cap_weights self True id' distance_in_m tags' traces'
      else Inr traces')"

subsection \<open>Invocation: the whole call\<close>

text \<open>
  \<^verbatim>\<open>ProcessData.__call__\<close>. The result is the processed bundle or the exception raised,
  together with the object and its two caches as the call leaves them. \<^verbatim>\<open>overwrite\<close> decides
  whether the caller's bundle or a deep copy of it is worked on; the bundle returned is the
  same in both cases.
\<close>

definition ProcessData_call ::
  "world \<Rightarrow> process_data \<Rightarrow> stream \<Rightarrow> station option \<Rightarrow> origin option \<Rightarrow> bool \<Rightarrow>
   (error + stream) \<times> process_data" where
  "ProcessData_call w self bundle station_arg origin_arg overwrite =
     (let station1 = (case station_arg of None \<Rightarrow> stream_station bundle | Some x \<Rightarrow> Some x);
          origin1 = (case origin_arg of None \<Rightarrow> stream_origin bundle | Some x \<Rightarrow> Some x);
          origin2 = (case origin1 of None \<Rightarrow> preliminary_origin bundle | Some x \<Rightarrow> Some x)
      in case stream_id bundle of
           None \<Rightarrow> (Inl Exception, self)
         | Some id' \<Rightarrow>
      (case origin2 of
           None \<Rightarrow> (Inl AttributeError, self)
         | Some origin' \<Rightarrow>
      (case station1 of
           None \<Rightarrow> (Inl AttributeError, self)
         | Some station' \<Rightarrow>
      (case gps2dist_azimuth w (latitude origin') (longitude origin')
              (station_latitude station') (station_longitude station') of
           (distance_in_m, azimuth, back_azimuth) \<Rightarrow>
      (case traces bundle of
           [] \<Rightarrow> (Inl IndexError, self)
         | first # others \<Rightarrow>
      (let dt = delta first in
       case tags bundle of
           None \<Rightarrow> (Inl Exception, self)
         | Some tags0 \<Rightarrow>
      (case convert_units tags0 (traces bundle) of
           (tags1, traces1) \<Rightarrow>
      (case filter_traces w self traces1 of
           Inl e \<Rightarrow> (Inl e, self)
         | Inr traces2 \<Rightarrow>
      (case to_displacement dt tags1 traces2 of
           (tags2, traces3) \<Rightarrow>
      (case determine_picks w self id' origin' distance_in_m traces3 of
           (Inl e, self1) \<Rightarrow> (Inl e, self1)
         | (Inr u, self1) \<Rightarrow>
      (case determine_window self1 id' origin' of
           (Inl e, self2) \<Rightarrow> (Inl e, self2)
         | (Inr u, self2) \<Rightarrow>
      (case cut_traces w self2 id' tags2 traces3 of
           Inl e \<Rightarrow> (Inl e, self2)
         | Inr traces4 \<Rightarrow>
      (case determine_weights self2 id' distance_in_m tags2 (taper_traces w traces4) of
           Inl e \<Rightarrow> (Inl e, self2)
         | Inr traces5 \<Rightarrow>
             (Inr (bundle\<lparr>traces := traces5, tags := Some tags2\<rparr>), self2))))))))))))))"

subsection \<open>The weight stage in closed form\<close>

text \<open>
  The notions in which the effect of the weight stage is stated: the component of a trace
  (\<^verbatim>\<open>trace.stats.channel[-1].upper()\<close>), what the second loop does to a trace, the first
  exception that resolving the weights of a list of traces raises, and the weight a trace
  resolves to when none is raised.
\<close>

definition component :: "trace \<Rightarrow> char" where
  "component t = upper (last (channel t))"

definition scaled :: "real \<Rightarrow> trace \<Rightarrow> trace" where
  "scaled c t = t\<lparr>data := map (\<lambda>x. x * c * 1) (data t)\<rparr>"

fun first_error :: "(char \<Rightarrow> error + real) \<Rightarrow> trace list \<Rightarrow> error option" where
  "first_error resolve [] = None"
| "first_error resolve (t # rest) =
     (if channel t \<noteq> [] then
        (case resolve (component t) of
           Inl e \<Rightarrow> Some e
         | Inr weight' \<Rightarrow> first_error resolve rest)
      else first_error resolve rest)"

definition resolved :: "(char \<Rightarrow> error + real) \<Rightarrow> trace \<Rightarrow> real" where
  "resolved resolve t = (case resolve (component t) of Inl e \<Rightarrow> 0 | Inr weight' \<Rightarrow> weight')"

definition retained :: "(char \<Rightarrow> error + real) \<Rightarrow> trace \<Rightarrow> bool" where
  "retained resolve t \<longleftrightarrow> channel t = [] \<or> resolved resolve t \<noteq> 0"

definition weighted :: "(char \<Rightarrow> error + real) \<Rightarrow> trace \<Rightarrow> trace" where
  "weighted resolve t =
     (if channel t = [] then t else t\<lparr>weight := Some (resolved resolve t)\<rparr>)"




subsection \<open>Sample inputs for the processor\<close>

text \<open>
  A small world: one weight file, whose table gives station \<^verbatim>\<open>STA\<close> the weight 1 on the
  vertical and radial components and 0 on the transverse one, a station 200 km from the
  origin, and signal operations that leave a trace as it is.
\<close>

definition sample_table :: "string \<rightharpoonup> real list" where
  "sample_table = Map.empty(''STA'' \<mapsto> [200, 1, 1, 1, 1, 0])"

definition sample_world :: world where
  "sample_world =
     \<lparr>path_exists = (\<lambda>path. path = ''weights.dat''),
      parse_weight_file = (\<lambda>path. Inr sample_table),
      taup_model_known = (\<lambda>model. model = ''ak135''),
      gps2dist_azimuth = (\<lambda>lat1 lon1 lat2 lon2. (200000, 0, 180)),
      m_to_deg = (\<lambda>x. x / 111195),
      get_travel_times = (\<lambda>model depth dist phases. Inr [(''P'', 30), (''S'', 50)]),
      get_arrival = (\<lambda>arr phase. case map_of arr phase of
                       None \<Rightarrow> Inl ExternalError | Some x \<Rightarrow> Inr x),
      read_fk_headers = (\<lambda>db model depth dist. Inl ExternalError),
      pick_file_rows = (\<lambda>path. Inl ExternalError),
      float_of = (\<lambda>field. Inl ValueError),
      detrend = (\<lambda>kind t. t),
      taper_hann = (\<lambda>fraction t. t),
      filter_bandpass = (\<lambda>fmin fmax t. t),
      filter_lowpass = (\<lambda>f t. t),
      filter_highpass = (\<lambda>f t. t),
      cut = (\<lambda>t starttime endtime. t),
      taper = (\<lambda>samples. samples)\<rparr>"

definition sample_trace :: "string \<Rightarrow> real list \<Rightarrow> trace" where
  "sample_trace code samples =
     \<lparr>channel = code, npts = length samples, delta = 1, data = samples, weight = None,
      sac = Some \<lparr>sac_t1 = 0, sac_t2 = 0, sac_t5 = 30, sac_t6 = 50\<rparr>\<rparr>"

definition sample_station :: station where
  "sample_station = \<lparr>station_latitude = 62, station_longitude = -150\<rparr>"

definition sample_origin :: origin where
  "sample_origin = \<lparr>latitude = 61, longitude = -149, depth_in_m = 33000, time = 1000\<rparr>"

definition sample_stream :: "string list \<Rightarrow> trace list \<Rightarrow> stream" where
  "sample_stream tags' traces' =
     \<lparr>traces = traces', stream_id = Some ''STA'', tags = Some tags',
      stream_station = Some sample_station, stream_origin = Some sample_origin,
      preliminary_origin = None\<rparr>"

text \<open>The keywords of a body-wave processor, and the same with \<^verbatim>\<open>scaling_power=2\<close> added.\<close>

definition sample_parameters :: parameters where
  "sample_parameters =
     Map.empty(''window_length'' \<mapsto> Num 15, ''cap_weight_file'' \<mapsto> Str ''weights.dat'')"

definition power_parameters :: parameters where
  "power_parameters = sample_parameters(''scaling_power'' \<mapsto> Num 2)"

text \<open>The object that the constructor builds from \<open>sample_parameters\<close>, before any call.\<close>

definition sample_object :: process_data where
  "sample_object =
     \<lparr>filter_type = None, freq_min = None, freq_max = None, freq = None,
      pick_type = Some ''from_sac_metadata'', taup_model = None, fk_database = None,
      fk_model = None, pick_file = None, picks = Map.empty,
      window_type = Some ''cap_bw'', window_length = Some (Num 15), windows = Map.empty,
      padding_length = Some (Num 0),
      weights = Some sample_table, scaling_power = Some (Num 1),
      scaling_distance = Some (Num 100000), weight_type = Some ''cap_bw''\<rparr>"

text \<open>
  A surface-wave processor: the same world with a weight file whose table tells the columns
  apart, and the object that the constructor builds there from \<open>sample_parameters\<close> with
  window and weight type \<^verbatim>\<open>cap_sw\<close>, the power being the default 0.5.
\<close>

definition surface_table :: "string \<rightharpoonup> real list" where
  "surface_table = Map.empty(''STA'' \<mapsto> [200, 1, 2, 3, 4, 5])"

definition surface_world :: world where
  "surface_world = sample_world\<lparr>parse_weight_file := (\<lambda>path. Inr surface_table)\<rparr>"

definition surface_object :: process_data where
  "surface_object =
     sample_object
       \<lparr>window_type := Some ''cap_sw'', weights := Some surface_table,
        scaling_power := Some (Num 0.5), weight_type := Some ''cap_sw''\<rparr>"

text \<open>
  Two bundles of station \<^verbatim>\<open>STA\<close> that differ in their samples and in their SAC picks, and
  the object as a call on the first bundle leaves it: picks 30 and 50 from the headers of the
  first bundle, and the body-wave window of length 15 that starts 6 before the P pick, moved
  to the origin time 1000.
\<close>

definition first_bundle :: stream where
  "first_bundle =
     sample_stream [''units:m'', ''type:displacement'']
       [sample_trace ''BHZ'' [1, 2], sample_trace ''BHR'' [3, 4]]"

definition second_bundle :: stream where
  "second_bundle =
     sample_stream [''units:m'', ''type:displacement'']
       [(sample_trace ''BHZ'' [7, 8, 9])
          \<lparr>sac := Some \<lparr>sac_t1 = 0, sac_t2 = 0, sac_t5 = 99, sac_t6 = 199\<rparr>\<rparr>]"

definition cached_object :: process_data where
  "cached_object =
     sample_object
       \<lparr>picks := Map.empty(''STA'' \<mapsto> \<lparr>pick_P = Some 30, pick_S = Some 50\<rparr>),
        windows := Map.empty(''STA'' \<mapsto> (1024, 1039))\<rparr>"

section \<open>Properties of the grid search\<close>

lemma serial_loop_eq:
  "serial_loop misfit select obs greens sources msg ni nj i origins results =
     results @ map (\<lambda>(k, origin). misfit obs (select greens origin) sources
        \<lparr>start = k * nj, stop = ni * nj, percent = msg\<rparr>) (enumerate i origins)"
  by (induction origins arbitrary: i results) simp_all

lemma concat_singletons:
  "\<forall>x\<in>set xs. length (f x) = Suc 0 \<Longrightarrow> concat (map f xs) = map (\<lambda>x. hd (f x)) xs"
proof (induction xs)
  case Nil show ?case by simp
next
  case (Cons x xs)
  then have "length (f x) = Suc 0" by simp
  then have "f x = [hd (f x)]" by (cases "f x") simp_all
  with Cons show ?case by simp
qed

lemma is_column_row:
  "is_column m c \<Longrightarrow> j < m \<Longrightarrow> length (rows c ! j) = Suc 0"
  by (simp add: is_column_def well_shaped_def list_all_length)

lemma concatenate_axis1_columns:
  assumes "cs \<noteq> []" and "\<forall>c\<in>set cs. is_column m c"
  shows "concatenate_axis1 cs =
     Inr \<lparr>nrows = m, ncols = length cs,
          rows = map (\<lambda>j. map (\<lambda>c. hd (rows c ! j)) cs) [0..<m]\<rparr>"
proof -
  obtain a as where cs: "cs = a # as" using assms(1) by (cases cs) auto
  have nr: "\<forall>c\<in>set cs. nrows c = m" and nc: "\<forall>c\<in>set cs. ncols c = Suc 0"
    using assms(2) by (simp_all add: is_column_def)
  have all: "list_all (\<lambda>b. nrows b = nrows a) as"
    using nr by (simp add: cs list_all_iff)
  have sum: "sum_list (map ncols cs) = length cs"
    using nc by (induction cs) simp_all
  have rws: "map (\<lambda>j. concat (map (\<lambda>b. rows b ! j) cs)) [0..<m]
           = map (\<lambda>j. map (\<lambda>c. hd (rows c ! j)) cs) [0..<m]"
  proof (rule map_cong[OF refl])
    fix j assume "j \<in> set [0..<m]"
    then have "j < m" by simp
    then have "\<forall>c\<in>set cs. length (rows c ! j) = Suc 0"
      using assms(2) is_column_row by blast
    then show "concat (map (\<lambda>b. rows b ! j) cs) = map (\<lambda>c. hd (rows c ! j)) cs"
      by (rule concat_singletons)
  qed
  have "nrows a = m" using nr by (simp add: cs)
  then show ?thesis using all sum rws by (simp add: cs)
qed

lemma column_of_columns:
  assumes "i < length cs" and "is_column m (cs ! i)"
  shows "column \<lparr>nrows = m, ncols = length cs,
          rows = map (\<lambda>j. map (\<lambda>c. hd (rows c ! j)) cs) [0..<m]\<rparr> i = cs ! i"
proof -
  let ?c = "cs ! i"
  have len: "length (rows ?c) = m" and nr: "nrows ?c = m" and nc: "ncols ?c = 1"
    using assms(2) by (simp_all add: is_column_def well_shaped_def)
  have "map (\<lambda>j. [hd (rows ?c ! j)]) [0..<m] = map (\<lambda>j. rows ?c ! j) [0..<m]"
  proof (rule map_cong[OF refl])
    fix j assume "j \<in> set [0..<m]"
    then have "length (rows ?c ! j) = Suc 0" using assms(2) by (simp add: is_column_row)
    then show "[hd (rows ?c ! j)] = rows ?c ! j" by (cases "rows ?c ! j") simp_all
  qed
  also have "\<dots> = rows ?c" using len map_nth[of "rows ?c"] by simp
  finally have "map (\<lambda>j. [hd (rows ?c ! j)]) [0..<m] = rows ?c" .
  then show ?thesis using assms(1) nr nc by (simp add: column_def o_def)
qed

lemma serial_results:
  "grid_search_serial misfit select obs greens origins sources msg =
     concatenate_axis1 (map (\<lambda>(k, origin). misfit obs (select greens origin) sources
        \<lparr>start = k * length sources, stop = length origins * length sources, percent = msg\<rparr>)
        (enumerate 0 origins))"
  by (simp add: grid_search_serial_def serial_loop_eq Let_def)

lemma serial_columns_aux:
  assumes "origins \<noteq> []"
    and "\<And>g h. is_column (length sources) (misfit obs g sources h)"
  shows "\<exists>M. grid_search_serial misfit select obs greens origins sources msg = Inr M
     \<and> nrows M = length sources \<and> ncols M = length origins \<and> well_shaped M
     \<and> (\<forall>i < length origins. column M i =
          misfit obs (select greens (origins ! i)) sources
            \<lparr>start = i * length sources, stop = length origins * length sources, percent = msg\<rparr>)"
proof -
  let ?m = "length sources"
  let ?F = "\<lambda>(k, origin). misfit obs (select greens origin) sources
        \<lparr>start = k * ?m, stop = length origins * ?m, percent = msg\<rparr>"
  let ?cs = "map ?F (enumerate 0 origins)"
  let ?M = "\<lparr>nrows = ?m, ncols = length ?cs,
          rows = map (\<lambda>j. map (\<lambda>c. hd (rows c ! j)) ?cs) [0..<?m]\<rparr>"
  have "length ?cs = length origins" by simp
  then have ne: "?cs \<noteq> []" using assms(1) by (metis length_0_conv)
  have cols: "\<forall>c\<in>set ?cs. is_column ?m c" using assms(2) by auto
  have res: "grid_search_serial misfit select obs greens origins sources msg = Inr ?M"
    unfolding serial_results by (rule concatenate_axis1_columns[OF ne cols])
  have ws: "well_shaped ?M" by (simp add: well_shaped_def list_all_iff)
  have col: "column ?M i = ?F (i, origins ! i)" if "i < length origins" for i
  proof -
    have i: "i < length ?cs" using that by simp
    have "column ?M i = ?cs ! i"
      by (rule column_of_columns[OF i]) (use cols i in \<open>simp only: nth_mem\<close>)
    also have "\<dots> = ?F (i, origins ! i)" using that by (simp add: nth_enumerate_eq)
    finally show ?thesis .
  qed
  show ?thesis using res ws col by (intro exI[of _ ?M]) simp
qed


lemma map_enumerate_snd: "map (\<lambda>(k, x). h x) (enumerate n xs) = map h xs"
  by (induction xs arbitrary: n) simp_all

lemma is_column_column_of: "is_column (length xs) (column_of xs)"
  by (simp add: is_column_def column_of_def well_shaped_def list_all_iff)

lemma serial_rowwise:
  assumes rw: "\<And>g S h. misfit obs g S h = column_of (map (f g) S)"
    and ne: "origins \<noteq> []"
  shows "grid_search_serial misfit select obs greens origins S msg =
     Inr \<lparr>nrows = length S, ncols = length origins,
          rows = map (\<lambda>s. map (\<lambda>origin. f (select greens origin) s) origins) S\<rparr>"
proof -
  let ?m = "length S"
  let ?F = "\<lambda>(k, origin). misfit obs (select greens origin) S
        \<lparr>start = k * ?m, stop = length origins * ?m, percent = msg\<rparr>"
  let ?cs = "map ?F (enumerate 0 origins)"
  have cs: "?cs = map (\<lambda>origin. column_of (map (f (select greens origin)) S)) origins"
    by (simp add: rw map_enumerate_snd)
  have "length ?cs = length origins" by simp
  then have ne': "?cs \<noteq> []" using ne by (metis length_0_conv)
  have cols: "\<forall>c\<in>set ?cs. is_column ?m c"
    unfolding cs using is_column_column_of[of "map _ S"] by auto
  have "grid_search_serial misfit select obs greens origins S msg =
     Inr \<lparr>nrows = ?m, ncols = length ?cs,
          rows = map (\<lambda>j. map (\<lambda>c. hd (rows c ! j)) ?cs) [0..<?m]\<rparr>"
    unfolding serial_results by (rule concatenate_axis1_columns[OF ne' cols])
  moreover have "map (\<lambda>j. map (\<lambda>c. hd (rows c ! j)) ?cs) [0..<?m]
      = map (\<lambda>s. map (\<lambda>origin. f (select greens origin) s) origins) S"
    unfolding cs by (rule nth_equalityI) (simp_all add: column_of_def o_def)
  ultimately show ?thesis by simp
qed

lemma serial_no_origins:
  "grid_search_serial misfit select obs greens [] S msg = Inl ValueError"
  by (simp add: grid_search_serial_def)

lemma collect_Inr: "collect (map (\<lambda>x. Inr (h x)) xs) = Inr (map h xs)"
  by (induction xs) simp_all

lemma concatenate_axis0_same:
  assumes "as \<noteq> []" and "\<forall>a\<in>set as. ncols a = n"
  shows "concatenate_axis0 as =
     Inr \<lparr>nrows = sum_list (map nrows as), ncols = n, rows = concat (map rows as)\<rparr>"
  using assms by (cases as) (simp_all add: list_all_iff)

lemma gather_rowwise:
  assumes rw: "\<And>g S h. misfit obs g S h = column_of (map (f g) S)"
    and parts: "parts \<noteq> []"
  shows "gather (map (\<lambda>(k, part). grid_search_serial misfit select obs greens origins part
                        (msg_of k)) (enumerate 0 parts))
       = grid_search_serial misfit select obs greens origins (concat parts) msg"
proof (cases "origins = []")
  case True
  obtain p ps where "parts = p # ps" using parts by (cases parts) auto
  then show ?thesis using True by (simp add: gather_def serial_no_origins)
next
  case False
  let ?row = "\<lambda>s. map (\<lambda>origin. f (select greens origin) s) origins"
  note sr = serial_rowwise[where misfit = misfit and f = f, OF rw False]
  let ?A = "\<lambda>(k::nat, part). \<lparr>nrows = length part, ncols = length origins, rows = map ?row part\<rparr>"
  have "map (\<lambda>(k, part). grid_search_serial misfit select obs greens origins part (msg_of k))
          (enumerate 0 parts)
      = map (\<lambda>x. Inr (?A x)) (enumerate 0 parts)"
    by (rule map_cong[OF refl]) (auto simp: sr)
  then have "gather (map (\<lambda>(k, part). grid_search_serial misfit select obs greens origins part
                        (msg_of k)) (enumerate 0 parts))
       = gather (map (\<lambda>x. Inr (?A x)) (enumerate 0 parts))"
    by (simp only:)
  also have "\<dots> = concatenate_axis0 (map ?A (enumerate 0 parts))"
    by (simp add: gather_def collect_Inr)
  also have "\<dots> = Inr \<lparr>nrows = sum_list (map nrows (map ?A (enumerate 0 parts))),
       ncols = length origins, rows = concat (map rows (map ?A (enumerate 0 parts)))\<rparr>"
  proof (rule concatenate_axis0_same)
    have "length (map ?A (enumerate 0 parts)) = length parts" by simp
    then show "map ?A (enumerate 0 parts) \<noteq> []" using parts by (metis length_0_conv)
    show "\<forall>a\<in>set (map ?A (enumerate 0 parts)). ncols a = length origins" by auto
  qed
  also have "map nrows (map ?A (enumerate 0 parts)) = map length parts"
    by (simp add: o_def split_def map_enumerate_snd[unfolded split_def])
  also have "map rows (map ?A (enumerate 0 parts)) = map (map ?row) parts"
    by (simp add: o_def split_def map_enumerate_snd[unfolded split_def])
  finally show ?thesis
    by (simp add: sr length_concat map_concat)
qed

lemma offset_misfit_is_column:
  "is_column (length sources) (offset_misfit obs greens sources msg_handle)"
  by (simp add: offset_misfit_def is_column_def column_of_def well_shaped_def list_all_iff)

text \<open>
  C1, as stated: for any partition of the grid and any misfit that is a pure function of its
  inputs, the per-part results of the serial evaluator, joined along the source axis, are the
  result on the whole grid. This fails for a misfit that looks at the grid as a whole: with
  \<open>grid_size_misfit\<close>, the two one-element halves of a two-element grid each give the entry 1,
  the whole grid gives the entry 2 twice.
\<close>

theorem gather_consistency_counterexample:
  "gather (per_rank grid_size_misfit select_all () () [()] 25 [[0], [1]])
     \<noteq> grid_search_serial grid_size_misfit select_all () () [()] (concat [[0], [1]]) 25"
  by (simp add: gather_def per_rank_def grid_search_serial_def grid_size_misfit_def
        column_of_def)

text \<open>
  C1, amended: when the misfit scores the sources one by one (its result on a grid is the
  column of a per-source value \<open>f greens s\<close>, whatever the rest of the grid and the progress
  reporter are), then for every list of one or more parts, the per-part results of the serial
  evaluator joined along the source axis in rank order are exactly its result on the
  concatenation of the parts (the same matrix, or the same error when there is no origin).
\<close>

theorem gather_consistency:
  assumes "\<And>g S h. misfit obs g S h = column_of (map (f g) S)"
    and "parts \<noteq> []"
  shows "gather (per_rank misfit select obs greens origins msg_interval parts)
       = grid_search_serial misfit select obs greens origins (concat parts) msg_interval"
  unfolding per_rank_def using assms by (rule gather_rowwise)

theorem gather_consistency_witness:
  "gather (per_rank offset_misfit select_origin () 10 [1, 2] 25 [[1, 2], [3]])
     = grid_search_serial offset_misfit select_origin () 10 [1, 2] (concat [[1, 2], [3]]) 25
   \<and> grid_search_serial offset_misfit select_origin () 10 [1, 2] (concat [[1, 2], [3]]) 25
     = Inr \<lparr>nrows = 3, ncols = 2, rows = [[12, 13], [13, 14], [14, 15]]\<rparr>"
proof -
  have rw: "\<And>g S h. offset_misfit () g S h = column_of (map ((+) g) S)"
    by (simp add: offset_misfit_def)
  have ne: "[[1, 2], [3::nat]] \<noteq> []" by simp
  have "grid_search_serial offset_misfit select_origin () 10 [1, 2] (concat [[1, 2], [3]]) 25
     = Inr \<lparr>nrows = 3, ncols = 2, rows = [[12, 13], [13, 14], [14, 15]]\<rparr>"
    by (simp add: grid_search_serial_def offset_misfit_def select_origin_def column_of_def)
  then show ?thesis
    using gather_consistency[of offset_misfit "()" "(+)" "[[1, 2], [3]]" select_origin 10 "[1, 2]" 25,
            OF rw ne]
    by simp
qed

text \<open>
  C3: when no MPI runtime is active (\<^verbatim>\<open>_is_mpi_env()\<close> is false), \<^verbatim>\<open>grid_search\<close> returns
  exactly what \<^verbatim>\<open>_grid_search_serial\<close> returns on the same arguments, whatever \<^verbatim>\<open>allgather\<close>
  is; with seven sources, one origin and a misfit that returns a (7, 1) column, the result is
  a matrix of shape (7, 1).
\<close>

theorem grid_search_without_mpi:
  assumes "\<not> is_mpi_env env"
  shows "grid_search env sources_partition misfit select obs greens origins sources
           msg_interval allgather
         = grid_search_serial misfit select obs greens origins sources msg_interval
       \<and> (length sources = 7 \<longrightarrow> length origins = 1 \<longrightarrow>
            (\<forall>g h. is_column 7 (misfit obs g sources h)) \<longrightarrow>
            (\<exists>M. grid_search env sources_partition misfit select obs greens origins sources
                    msg_interval allgather = Inr M
                 \<and> nrows M = 7 \<and> ncols M = 1 \<and> well_shaped M))"
proof (intro conjI impI)
  show eq: "grid_search env sources_partition misfit select obs greens origins sources
           msg_interval allgather
         = grid_search_serial misfit select obs greens origins sources msg_interval"
    using assms by (simp add: grid_search_def)
  assume len: "length sources = 7" "length origins = 1"
    and col: "\<forall>g h. is_column 7 (misfit obs g sources h)"
  have ne: "origins \<noteq> []" using len(2) by auto
  have "\<And>g h. is_column (length sources) (misfit obs g sources h)"
    using col len(1) by simp
  from serial_columns_aux[where misfit = misfit and select = select and greens = greens
         and msg = msg_interval, OF ne this]
  show "\<exists>M. grid_search env sources_partition misfit select obs greens origins sources
                    msg_interval allgather = Inr M
                 \<and> nrows M = 7 \<and> ncols M = 1 \<and> well_shaped M"
    unfolding eq using len by auto
qed

theorem grid_search_without_mpi_witness:
  "\<not> is_mpi_env no_mpi
   \<and> grid_search no_mpi halves offset_misfit select_origin () 10 [1] [1, 2, 3, 4, 5, 6, 7] 25 True
     = grid_search_serial offset_misfit select_origin () 10 [1] [1, 2, 3, 4, 5, 6, 7] 25
   \<and> (\<exists>M. grid_search no_mpi halves offset_misfit select_origin () 10 [1] [1, 2, 3, 4, 5, 6, 7]
             25 True = Inr M
          \<and> nrows M = 7 \<and> ncols M = 1 \<and> well_shaped M)"
proof -
  have env: "\<not> is_mpi_env no_mpi" by (simp add: is_mpi_env_def no_mpi_def)
  have col: "\<forall>g h. is_column 7 (offset_misfit () g [1, 2, 3, 4, 5, 6, 7] h)"
    by (simp add: offset_misfit_def is_column_def column_of_def well_shaped_def)
  have len: "length [1, 2, 3, 4, 5, 6, 7::nat] = 7" "length [1::nat] = 1" by simp_all
  note inst = grid_search_without_mpi[OF env, of halves offset_misfit select_origin "()" 10 "[1]"
            "[1, 2, 3, 4, 5, 6, 7]" 25 True]
  from inst have eq:
    "grid_search no_mpi halves offset_misfit select_origin () 10 [1] [1, 2, 3, 4, 5, 6, 7] 25 True
     = grid_search_serial offset_misfit select_origin () 10 [1] [1, 2, 3, 4, 5, 6, 7] 25"
    by (rule conjunct1)
  from inst len col have shape:
    "\<exists>M. grid_search no_mpi halves offset_misfit select_origin () 10 [1] [1, 2, 3, 4, 5, 6, 7]
             25 True = Inr M
          \<and> nrows M = 7 \<and> ncols M = 1 \<and> well_shaped M"
    by blast
  from env eq shape show ?thesis by (intro conjI)
qed

text \<open>
  C4: for \<open>n \<ge> 1\<close> origins and \<open>m\<close> sources, when every call of the misfit returns a column
  of shape \<open>(m, 1)\<close>, the serial evaluator returns a matrix of shape \<open>(m, n)\<close> whose column
  \<open>i\<close> is the misfit applied to the observed data, the Green's functions selected for origin \<open>i\<close>, the
  whole source grid and the progress reporter built for origin \<open>i\<close>.
\<close>

theorem grid_search_serial_columns:
  assumes "origins \<noteq> []"
    and "\<And>g h. is_column (length sources) (misfit obs g sources h)"
  shows "\<exists>M. grid_search_serial misfit select obs greens origins sources msg_interval = Inr M
     \<and> nrows M = length sources \<and> ncols M = length origins \<and> well_shaped M
     \<and> (\<forall>i < length origins. column M i =
          misfit obs (select greens (origins ! i)) sources
            \<lparr>start = i * length sources, stop = length origins * length sources,
             percent = msg_interval\<rparr>)"
  using assms by (rule serial_columns_aux)

theorem grid_search_serial_columns_witness:
  "[1, 2::nat] \<noteq> []
   \<and> (\<exists>M. grid_search_serial offset_misfit select_origin () 10 [1, 2] [1, 2, 3] 25 = Inr M
     \<and> nrows M = length [1, 2, 3::nat] \<and> ncols M = length [1, 2::nat] \<and> well_shaped M
     \<and> (\<forall>i < length [1, 2::nat]. column M i =
          offset_misfit () (select_origin 10 ([1, 2] ! i)) [1, 2, 3]
            \<lparr>start = i * length [1, 2, 3::nat], stop = length [1, 2::nat] * length [1, 2, 3::nat],
             percent = 25\<rparr>))"
proof
  show ne: "[1, 2::nat] \<noteq> []" by simp
  have col: "\<And>g h. is_column (length [1, 2, 3::nat]) (offset_misfit () g [1, 2, 3] h)"
    by (rule offset_misfit_is_column)
  show "\<exists>M. grid_search_serial offset_misfit select_origin () 10 [1, 2] [1, 2, 3] 25 = Inr M
     \<and> nrows M = length [1, 2, 3::nat] \<and> ncols M = length [1, 2::nat] \<and> well_shaped M
     \<and> (\<forall>i < length [1, 2::nat]. column M i =
          offset_misfit () (select_origin 10 ([1, 2] ! i)) [1, 2, 3]
            \<lparr>start = i * length [1, 2, 3::nat], stop = length [1, 2::nat] * length [1, 2, 3::nat],
             percent = 25\<rparr>)"
    by (rule grid_search_serial_columns[where misfit = offset_misfit, OF ne col])
qed

section \<open>Properties of the weight stage\<close>

lemma setattr_weight_other:
  "i \<notin> fst ` set xs \<Longrightarrow> setattr_weight i w xs = xs"
  by (induction xs) (auto simp: setattr_weight_def)

lemma setattr_weight_here:
  assumes "i \<notin> fst ` set xs" and "i \<notin> fst ` set ys"
  shows "setattr_weight i w (xs @ (i, t) # ys) = xs @ (i, t\<lparr>weight := Some w\<rparr>) # ys"
proof -
  have "setattr_weight i w (xs @ (i, t) # ys)
      = setattr_weight i w xs @ (i, t\<lparr>weight := Some w\<rparr>) # setattr_weight i w ys"
    by (simp add: setattr_weight_def)
  then show ?thesis using assms by (simp add: setattr_weight_other)
qed

lemma trace_eq_refl: "trace_eq t t"
  by (simp add: trace_eq_def)

lemma trace_eq_channel: "trace_eq u t \<Longrightarrow> channel u = channel t"
  by (simp add: trace_eq_def)

lemma remove_trace_here:
  assumes "\<forall>(j, u)\<in>set xs. \<not> trace_eq u t"
  shows "remove_trace t (xs @ (i, t) # ys) = Inr (xs @ ys)"
  using assms by (induction xs) (auto simp: trace_eq_refl)

lemma retained_channel:
  "channel u = channel t \<Longrightarrow> retained resolve u = retained resolve t"
  by (simp add: retained_def resolved_def component_def)

lemma weight_loop_closed:
  assumes "''type:greens'' \<notin> set tags'"
    and "\<forall>(j, u)\<in>set visited. retained resolve u"
    and "distinct (map fst (visited @ rest))"
  shows "weight_loop resolve tags' rest (visited @ rest) =
     (case first_error resolve (map snd rest) of
        Some e \<Rightarrow> Inl e
      | None \<Rightarrow> Inr (visited @ map (\<lambda>(j, u). (j, weighted resolve u))
                            (filter (\<lambda>(j, u). retained resolve u) rest)))"
  using assms(2,3)
proof (induction rest arbitrary: visited)
  case Nil
  show ?case by simp
next
  case (Cons x rest)
  obtain i t where x: "x = (i, t)" by (cases x)
  have i_done: "i \<notin> fst ` set visited" and i_rest: "i \<notin> fst ` set rest"
    using Cons.prems(2) by (auto simp: x)
  show ?case
  proof (cases "channel t = []")
    case True
    have "\<forall>(j, u)\<in>set (visited @ [(i, t)]). retained resolve u"
      using Cons.prems(1) True by (auto simp: retained_def)
    moreover have "distinct (map fst ((visited @ [(i, t)]) @ rest))"
      using Cons.prems(2) by (simp add: x)
    ultimately have "weight_loop resolve tags' rest ((visited @ [(i, t)]) @ rest) =
       (case first_error resolve (map snd rest) of
          Some e \<Rightarrow> Inl e
        | None \<Rightarrow> Inr ((visited @ [(i, t)]) @ map (\<lambda>(j, u). (j, weighted resolve u))
                            (filter (\<lambda>(j, u). retained resolve u) rest)))"
      by (rule Cons.IH)
    moreover have "retained resolve t" "weighted resolve t = t"
      using True by (simp_all add: retained_def weighted_def)
    ultimately show ?thesis
      using True assms(1) by (simp add: x split: option.split)
  next
    case False
    show ?thesis
    proof (cases "resolve (component t)")
      case (Inl e)
      then show ?thesis using False assms(1) by (simp add: x component_def)
    next
      case (Inr w)
      show ?thesis
      proof (cases "w = 0")
        case True
        have not_ret: "\<not> retained resolve t"
          using False Inr True by (simp add: retained_def resolved_def)
        have "\<forall>(j, u)\<in>set visited. \<not> trace_eq u t"
          using Cons.prems(1) not_ret retained_channel[OF trace_eq_channel] by blast
        then have rm: "remove_trace t (visited @ (i, t) # rest) = Inr (visited @ rest)"
          by (rule remove_trace_here)
        have "distinct (map fst (visited @ rest))" using Cons.prems(2) by (simp add: x)
        with Cons.prems(1) have "weight_loop resolve tags' rest (visited @ rest) =
           (case first_error resolve (map snd rest) of
              Some e \<Rightarrow> Inl e
            | None \<Rightarrow> Inr (visited @ map (\<lambda>(j, u). (j, weighted resolve u))
                            (filter (\<lambda>(j, u). retained resolve u) rest)))"
          by (rule Cons.IH)
        then show ?thesis
          using False Inr True assms(1) rm not_ret
          by (simp add: x component_def split: option.split)
      next
        case nz: False
        have ret: "retained resolve t"
          using Inr nz by (simp add: retained_def resolved_def)
        have wt: "weighted resolve t = t\<lparr>weight := Some w\<rparr>"
          using False Inr by (simp add: weighted_def resolved_def)
        have sa: "setattr_weight i w (visited @ (i, t) # rest)
                = (visited @ [(i, t\<lparr>weight := Some w\<rparr>)]) @ rest"
          using setattr_weight_here[OF i_done i_rest] by simp
        have "retained resolve (t\<lparr>weight := Some w\<rparr>)"
          using ret retained_channel[of "t\<lparr>weight := Some w\<rparr>" t] by simp
        then have "\<forall>(j, u)\<in>set (visited @ [(i, t\<lparr>weight := Some w\<rparr>)]). retained resolve u"
          using Cons.prems(1) by auto
        moreover have "distinct (map fst ((visited @ [(i, t\<lparr>weight := Some w\<rparr>)]) @ rest))"
          using Cons.prems(2) by (simp add: x)
        ultimately have "weight_loop resolve tags' rest ((visited @ [(i, t\<lparr>weight := Some w\<rparr>)]) @ rest) =
           (case first_error resolve (map snd rest) of
              Some e \<Rightarrow> Inl e
            | None \<Rightarrow> Inr ((visited @ [(i, t\<lparr>weight := Some w\<rparr>)]) @ map (\<lambda>(j, u). (j, weighted resolve u))
                            (filter (\<lambda>(j, u). retained resolve u) rest)))"
          by (rule Cons.IH)
        then show ?thesis
          using False Inr nz assms(1) ret wt
          by (simp add: x component_def sa split: option.split)
      qed
    qed
  qed
qed

lemma map_snd_weighted_filter:
  "map snd (map (\<lambda>(j, u). (j, f u)) (filter (\<lambda>(j, u). P u) (enumerate n xs)))
     = map f (filter P xs)"
  by (induction xs arbitrary: n) simp_all

lemma map_snd_weighted_filter':
  "map (snd \<circ> (\<lambda>(j, u). (j, f u))) (filter (\<lambda>(j, u). P u) (enumerate n xs))
     = map f (filter P xs)"
  using map_snd_weighted_filter[of f P n xs] by simp

lemma weight_loop_greens:
  "''type:greens'' \<in> set tags' \<Longrightarrow> weight_loop resolve tags' rest current = Inr current"
  by (cases rest) auto

lemma scale_loop_closed:
  "scaling_factor self d = Inr c \<Longrightarrow> scale_loop self d ts = Inr (map (scaled c) ts)"
  by (induction ts) (simp_all add: scaled_def)

lemma scale_loop_result:
  "scale_loop self d ts = Inr out \<Longrightarrow> \<exists>c. out = map (scaled c) ts"
proof (induction ts arbitrary: out)
  case Nil
  then show ?case by simp
next
  case (Cons t ts)
  then obtain c where c: "scaling_factor self d = Inr c"
    by (cases "scaling_factor self d") simp_all
  then show ?case using scale_loop_closed[OF c, of "t # ts"] Cons.prems by auto
qed

lemma cap_weights_greens:
  "''type:greens'' \<in> set tags' \<Longrightarrow>
   cap_weights self surface id' d tags' ts = scale_loop self d ts"
  by (simp add: cap_weights_def weight_loop_greens)

lemma cap_weights_closed:
  assumes "''type:greens'' \<notin> set tags'"
  shows "cap_weights self surface id' d tags' ts =
     (case first_error (resolve_weight self surface id') ts of
        Some e \<Rightarrow> Inl e
      | None \<Rightarrow> scale_loop self d
                  (map (weighted (resolve_weight self surface id'))
                       (filter (retained (resolve_weight self surface id')) ts)))"
proof -
  let ?R = "resolve_weight self surface id'"
  have "weight_loop ?R tags' (enumerate 0 ts) ([] @ enumerate 0 ts) =
     (case first_error ?R (map snd (enumerate 0 ts)) of
        Some e \<Rightarrow> Inl e
      | None \<Rightarrow> Inr ([] @ map (\<lambda>(j, u). (j, weighted ?R u))
                            (filter (\<lambda>(j, u). retained ?R u) (enumerate 0 ts))))"
    by (rule weight_loop_closed[OF assms]) (simp_all add: map_fst_enumerate)
  then show ?thesis
    by (simp add: cap_weights_def map_snd_weighted_filter' split: option.split)
qed



lemma cap_bw_other:
  assumes "weights self = Some table" and "c \<noteq> CHR ''Z''" and "c \<noteq> CHR ''R''"
  shows "resolve_weight self False id' c = Inr 0"
  using assms by (simp add: resolve_weight_def cap_bw_weight_def split: option.split)

lemma determine_weights_cap:
  assumes "weight_type self = Some (if surface then ''cap_sw'' else ''cap_bw'')"
  shows "determine_weights self id' d tags' ts = cap_weights self surface id' d tags' ts"
  using assms by (simp add: determine_weights_def truthy_def)

lemma init_sample:
  "ProcessData_init sample_world None (Some ''from_sac_metadata'') (Some ''cap_bw'')
     (Some ''cap_bw'') sample_parameters = Inr sample_object"
  by (simp add: ProcessData_init_def check_filter_def check_pick_def check_window_def
        check_weight_def check_cap_weight_def has_key_def get_str_def str_of_def
        sample_parameters_def sample_world_def sample_object_def new_object_def)

lemma float_overflow_small: "\<bar>r\<bar> \<le> 1024 \<Longrightarrow> \<not> float_overflow r"
proof -
  have "(1024::real) < 2 ^ 1024 - 2 ^ 970" by simp
  then show "\<bar>r\<bar> \<le> 1024 \<Longrightarrow> \<not> float_overflow r" by (simp add: float_overflow_def)
qed

lemma float_positive_mid:
  assumes "1 \<le> r" and "r \<le> 1024"
  shows "float_positive r"
proof -
  have "(1::real) / 2 ^ 1022 \<le> 1" by simp
  with assms(1) have "1 / 2 ^ 1022 \<le> r" by linarith
  moreover have "\<not> float_overflow r" using assms by (intro float_overflow_small) simp
  ultimately show ?thesis by (simp add: float_positive_def)
qed

lemma float_positive_gt: "float_positive r \<Longrightarrow> 0 < r"
proof -
  assume "float_positive r"
  then have "1 / 2 ^ 1022 \<le> r" by (simp add: float_positive_def)
  moreover have "(0::real) < 1 / 2 ^ 1022" by simp
  ultimately show "0 < r" by linarith
qed

lemma scaling_factor_explicit:
  assumes "scaling_distance self = Some (Num sd)" and "scaling_power self = Some (Num sp)"
    and "float_positive (d / sd)" and "\<not> float_overflow ((d / sd) powr sp)"
  shows "scaling_factor self d = Inr ((d / sd) powr sp)"
proof -
  have pos: "0 < d / sd" using assms(3) by (rule float_positive_gt)
  then have "sd \<noteq> 0" by auto
  then show ?thesis
    using assms(1,2,4) pos
    by (simp add: scaling_factor_def num_of_def py_pow_def checked_float_def)
qed

lemma factor_sample: "scaling_factor sample_object 200000 = Inr 2"
  by (simp add: scaling_factor_def sample_object_def num_of_def py_pow_def checked_float_def
        float_overflow_small)

lemma init_surface:
  "ProcessData_init surface_world None (Some ''from_sac_metadata'') (Some ''cap_sw'')
     (Some ''cap_sw'') sample_parameters = Inr surface_object"
  by (simp add: ProcessData_init_def check_filter_def check_pick_def check_window_def
        check_weight_def check_cap_weight_def has_key_def get_str_def str_of_def
        sample_parameters_def sample_world_def surface_world_def sample_object_def
        surface_object_def new_object_def)



lemmas sample_weight_defs =
  retained_def weighted_def resolved_def scaled_def component_def upper_def
  resolve_weight_def cap_bw_weight_def row_get_def sample_object_def sample_table_def
  sample_trace_def

text \<open>
  C5, as stated: the weight stage leaves a bundle tagged \<^verbatim>\<open>type:greens\<close> unchanged. It does
  not: the second loop multiplies the samples of a Green's function bundle as it does those
  of data. At 200 km with the default distance and power the samples are doubled.
\<close>

theorem greens_unchanged_counterexample:
  "determine_weights sample_object ''STA'' 200000 [''type:greens''] [sample_trace ''BHZ'' [1, 2]]
     = Inr [sample_trace ''BHZ'' [2, 4]]
   \<and> sample_trace ''BHZ'' [2, 4] \<noteq> sample_trace ''BHZ'' [1, 2]"
  by (simp add: determine_weights_def truthy_def cap_weights_def scaling_factor_def num_of_def
        py_pow_def checked_float_def float_overflow_small sample_object_def sample_trace_def)

text \<open>
  C5, amended: for a bundle tagged \<^verbatim>\<open>type:greens\<close> and a processor with weight type
  \<^verbatim>\<open>cap_bw\<close> or \<^verbatim>\<open>cap_sw\<close>, the weight stage removes no trace and assigns no weight, and
  multiplies the samples of every trace by \<^verbatim>\<open>(distance/scaling_distance)**scaling_power\<close>,
  as it does for data (the quotient being a positive float and the power within the range of
  a float).
\<close>

theorem greens_only_scaled:
  assumes "weight_type self = Some ''cap_bw'' \<or> weight_type self = Some ''cap_sw''"
    and "''type:greens'' \<in> set tags'"
    and "scaling_distance self = Some (Num sd)"
    and "scaling_power self = Some (Num sp)"
    and "float_positive (distance_in_m / sd)"
    and "\<not> float_overflow ((distance_in_m / sd) powr sp)"
  shows "determine_weights self id' distance_in_m tags' traces'
       = Inr (map (scaled ((distance_in_m / sd) powr sp)) traces')"
proof -
  have "determine_weights self id' distance_in_m tags' traces'
      = cap_weights self (weight_type self = Some ''cap_sw'') id' distance_in_m tags' traces'"
    using assms(1) by (rule disjE) (simp_all add: determine_weights_def truthy_def)
  then show ?thesis
    by (simp add: cap_weights_greens[OF assms(2)]
          scale_loop_closed[OF scaling_factor_explicit[OF assms(3,4,5,6)]])
qed

theorem greens_only_scaled_witness:
  "determine_weights surface_object ''STA'' 400000 [''type:greens'']
     [sample_trace ''BHT'' [1], sample_trace ''BHZ'' [1, 2]]
   = Inr [sample_trace ''BHT'' [2], sample_trace ''BHZ'' [2, 4]]"
proof -
  have wt: "weight_type surface_object = Some ''cap_bw''
          \<or> weight_type surface_object = Some ''cap_sw''"
    by (simp add: surface_object_def)
  have gr: "''type:greens'' \<in> set [''type:greens'']" by simp
  have sd: "scaling_distance surface_object = Some (Num 100000)"
    and sp: "scaling_power surface_object = Some (Num (1 / 2))"
    by (simp_all add: surface_object_def sample_object_def)
  have four: "(400000 / 100000 :: real) powr (1 / 2) = 2" by (simp add: powr_half_sqrt)
  have q: "float_positive (400000 / 100000)" by (simp add: float_positive_mid)
  have f: "\<not> float_overflow ((400000 / 100000) powr (1 / 2))"
    unfolding four by (simp add: float_overflow_small)
  show ?thesis
    unfolding greens_only_scaled[OF wt gr sd sp q f] four
    by (simp add: scaled_def sample_trace_def)
qed




text \<open>
  C10: with weight type \<^verbatim>\<open>cap_bw\<close>, a component other than \<^verbatim>\<open>Z\<close> and \<^verbatim>\<open>R\<close> resolves to the
  weight 0 whatever the weight table holds, and no trace with such a component is left in the
  output for a bundle not tagged \<^verbatim>\<open>type:greens\<close>.
\<close>

theorem cap_bw_other_components:
  assumes "weights self = Some table"
  shows "(c \<noteq> CHR ''Z'' \<longrightarrow> c \<noteq> CHR ''R'' \<longrightarrow> resolve_weight self False id' c = Inr 0)
       \<and> (weight_type self = Some ''cap_bw'' \<longrightarrow> ''type:greens'' \<notin> set tags' \<longrightarrow>
            determine_weights self id' distance_in_m tags' traces' = Inr out \<longrightarrow>
            (\<forall>u\<in>set out. channel u \<noteq> [] \<longrightarrow>
               component u = CHR ''Z'' \<or> component u = CHR ''R''))"
proof (intro conjI impI ballI)
  assume "c \<noteq> CHR ''Z''" "c \<noteq> CHR ''R''"
  then show "resolve_weight self False id' c = Inr 0" using assms by (rule cap_bw_other[rotated])
next
  fix u
  let ?R = "resolve_weight self False id'"
  assume wt: "weight_type self = Some ''cap_bw''" and ng: "''type:greens'' \<notin> set tags'"
    and out: "determine_weights self id' distance_in_m tags' traces' = Inr out"
    and u: "u \<in> set out" and ch: "channel u \<noteq> []"
  have "determine_weights self id' distance_in_m tags' traces'
      = cap_weights self False id' distance_in_m tags' traces'"
    using wt by (simp add: determine_weights_cap)
  with out cap_weights_closed[OF ng, of self False id' distance_in_m traces']
  have "scale_loop self distance_in_m (map (weighted ?R) (filter (retained ?R) traces')) = Inr out"
    by (simp split: option.splits)
  then obtain k where "out = map (scaled k) (map (weighted ?R) (filter (retained ?R) traces'))"
    using scale_loop_result by blast
  with u obtain t where t: "retained ?R t" and ut: "u = scaled k (weighted ?R t)" by auto
  have same: "channel u = channel t" by (simp add: ut scaled_def weighted_def)
  then have comp: "component u = component t" by (simp add: component_def)
  have "resolved ?R t \<noteq> 0" using t ch same by (simp add: retained_def)
  then have "?R (component t) \<noteq> Inr 0" by (auto simp: resolved_def)
  then show "component u = CHR ''Z'' \<or> component u = CHR ''R''"
    using cap_bw_other[OF assms, of "component t" id'] comp by auto
qed

theorem cap_bw_other_components_witness:
  "resolve_weight sample_object False ''STA'' (CHR ''T'') = Inr 0
   \<and> (component ((sample_trace ''BHZ'' [2, 4])\<lparr>weight := Some 1\<rparr>) = CHR ''Z''
      \<or> component ((sample_trace ''BHZ'' [2, 4])\<lparr>weight := Some 1\<rparr>) = CHR ''R'')"
proof -
  let ?u = "(sample_trace ''BHZ'' [2, 4])\<lparr>weight := Some 1\<rparr>"
  have tb: "weights sample_object = Some sample_table" by (simp add: sample_object_def)
  have wt: "weight_type sample_object = Some ''cap_bw''" by (simp add: sample_object_def)
  have ng: "''type:greens'' \<notin> set [''units:m'']" by simp
  have out: "determine_weights sample_object ''STA'' 200000 [''units:m'']
       [sample_trace ''BHT'' [1], sample_trace ''BHZ'' [1, 2]] = Inr [?u]"
    by (simp add: determine_weights_def cap_weights_def truthy_def trace_eq_def
          setattr_weight_def scaling_factor_def num_of_def py_pow_def checked_float_def
          float_overflow_small sample_weight_defs)
  have mem: "?u \<in> set [?u]" by simp
  have ch: "channel ?u \<noteq> []" by (simp add: sample_trace_def)
  note inst = cap_bw_other_components[OF tb, of "CHR ''T''" "''STA''" "[''units:m'']" 200000
      "[sample_trace ''BHT'' [1], sample_trace ''BHZ'' [1, 2]]" "[?u]"]
  from inst have "resolve_weight sample_object False ''STA'' (CHR ''T'') = Inr 0" by simp
  moreover from inst wt ng out mem ch
  have "component ?u = CHR ''Z'' \<or> component ?u = CHR ''R''" by blast
  ultimately show ?thesis by (rule conjI)
qed

section \<open>Properties of the constructor\<close>

text \<open>
  C8 on the code: the constructor tests for the key \<^verbatim>\<open>'scaling power'\<close> (with a blank), which
  a keyword argument cannot have, so \<^verbatim>\<open>scaling_power=2\<close> is ignored. The object built is
  the one built without the keyword, with the default power 1, and at 200 km the samples are
  scaled by 2 where the power 2 would give 4.
\<close>

theorem scaling_power_keyword_ignored:
  "ProcessData_init sample_world None (Some ''from_sac_metadata'') (Some ''cap_bw'')
     (Some ''cap_bw'') power_parameters = Inr sample_object
   \<and> power_parameters ''scaling_power'' = Some (Num 2)
   \<and> scaling_power sample_object = Some (Num 1)
   \<and> scaling_factor sample_object 200000 = Inr 2
   \<and> py_pow (200000 / 100000) 2 = Inr 4"
  by (simp add: ProcessData_init_def check_filter_def check_pick_def check_window_def
        check_weight_def check_cap_weight_def has_key_def get_str_def str_of_def
        sample_parameters_def power_parameters_def sample_world_def sample_object_def
        new_object_def scaling_factor_def num_of_def py_pow_def checked_float_def
        float_overflow_small)

text \<open>
  C9, as stated: with \<^verbatim>\<open>pick_type='from_cap_weight_file'\<close> construction succeeds and the
  error comes at the first call. Construction does not succeed.
\<close>

theorem unimplemented_pick_counterexample:
  "ProcessData_init sample_world None (Some ''from_cap_weight_file'') (Some ''cap_bw'')
     (Some ''cap_bw'') sample_parameters = Inl NotImplementedError"
  by (simp add: ProcessData_init_def check_filter_def check_pick_def)

text \<open>
  C9, amended: with \<^verbatim>\<open>pick_type='from_cap_weight_file'\<close> the constructor never returns an
  object: it raises \<open>NotImplementedError\<close> as soon as the filter parameters have passed their
  check (and the error of that check otherwise), at construction time.
\<close>

theorem unimplemented_pick_at_construction:
  "ProcessData_init w filter_type' (Some ''from_cap_weight_file'') window_type' weight_type'
     parameters
   = (case check_filter filter_type' parameters new_object of
        Inl e \<Rightarrow> Inl e
      | Inr checked \<Rightarrow> Inl NotImplementedError)"
  by (simp add: ProcessData_init_def check_pick_def split: sum.split prod.split)

text \<open>
  C7, as stated: each of the four axes may be \<^verbatim>\<open>None\<close>, with no parameter supplied for it.
  With every axis \<^verbatim>\<open>None\<close> and no keyword at all the constructor raises.
\<close>

theorem absent_axes_counterexample:
  "ProcessData_init sample_world None None None None Map.empty = Inl Exception"
  by (simp add: ProcessData_init_def check_filter_def check_pick_def)

lemma determine_window_absent:
  "window_type self = None \<Longrightarrow> determine_window self id' origin' = (Inr (), self)"
  by (simp add: determine_window_def truthy_def)

text \<open>
  C7, amended: the filter check and the weight check accept \<^verbatim>\<open>None\<close>, and so does the window
  check when the keyword \<^verbatim>\<open>window_length\<close> is supplied; with a pick strategy that passes its
  check the constructor then returns an object. At invocation the filter stage returns the
  traces as they are, the window stage leaves the caches and the traces as they are, and the
  weight stage sets the weight of every trace to 1 and changes nothing else. The pick check
  raises \<open>Exception\<close> on \<^verbatim>\<open>None\<close>, and so does the constructor with \<^verbatim>\<open>pick_type=None\<close>
  as soon as the filter parameters have passed their check.
\<close>

theorem absent_axes:
  "check_filter None parameters self = Inr (parameters, self\<lparr>filter_type := None\<rparr>)
   \<and> (filter_type self = None \<longrightarrow> filter_traces w self traces' = Inr traces')
   \<and> check_pick w None parameters self = Inl Exception
   \<and> ProcessData_init w filter_type' None window_type' weight_type' parameters
       = (case check_filter filter_type' parameters new_object of
            Inl e \<Rightarrow> Inl e
          | Inr checked \<Rightarrow> Inl Exception)
   \<and> (parameters ''window_length'' = Some v \<longrightarrow>
        check_window None parameters self
          = Inr (self\<lparr>window_type := None, window_length := Some v, windows := Map.empty,
                     padding_length := (if has_key parameters ''padding_length''
                                        then parameters ''padding_length'' else Some (Num 0))\<rparr>))
   \<and> (window_type self = None \<longrightarrow>
        determine_window self id' origin' = (Inr (), self)
        \<and> cut_traces w self id' tags' traces' = Inr traces')
   \<and> check_weight w None parameters self = Inr (self\<lparr>weight_type := None\<rparr>)
   \<and> (weight_type self = None \<longrightarrow>
        determine_weights self id' distance_in_m tags' traces'
          = Inr (map (\<lambda>t. t\<lparr>weight := Some 1\<rparr>) traces'))
   \<and> (parameters ''window_length'' = Some v \<longrightarrow>
        (\<exists>built. ProcessData_init w None (Some ''from_sac_metadata'') None None parameters
                   = Inr built
                 \<and> filter_type built = None \<and> window_type built = None
                 \<and> weight_type built = None))"
proof (intro conjI impI)
  show "check_filter None parameters self = Inr (parameters, self\<lparr>filter_type := None\<rparr>)"
    by (simp add: check_filter_def)
  show "check_pick w None parameters self = Inl Exception"
    by (simp add: check_pick_def)
  show "ProcessData_init w filter_type' None window_type' weight_type' parameters
       = (case check_filter filter_type' parameters new_object of
            Inl e \<Rightarrow> Inl e
          | Inr checked \<Rightarrow> Inl Exception)"
    by (simp add: ProcessData_init_def check_pick_def split: sum.split prod.split)
  show "check_weight w None parameters self = Inr (self\<lparr>weight_type := None\<rparr>)"
    by (simp add: check_weight_def)
next
  assume "filter_type self = None"
  then show "filter_traces w self traces' = Inr traces'"
    by (simp add: filter_traces_def)
next
  assume "parameters ''window_length'' = Some v"
  then show "check_window None parameters self
          = Inr (self\<lparr>window_type := None, window_length := Some v, windows := Map.empty,
                     padding_length := (if has_key parameters ''padding_length''
                                        then parameters ''padding_length'' else Some (Num 0))\<rparr>)"
    by (simp add: check_window_def)
next
  assume "window_type self = None"
  then show "determine_window self id' origin' = (Inr (), self)"
    by (rule determine_window_absent)
next
  assume "window_type self = None"
  then show "cut_traces w self id' tags' traces' = Inr traces'"
    by (simp add: cut_traces_def truthy_def)
next
  assume "weight_type self = None"
  then show "determine_weights self id' distance_in_m tags' traces'
          = Inr (map (\<lambda>t. t\<lparr>weight := Some 1\<rparr>) traces')"
    by (simp add: determine_weights_def truthy_def)
next
  assume "parameters ''window_length'' = Some v"
  then show "\<exists>built. ProcessData_init w None (Some ''from_sac_metadata'') None None parameters
                   = Inr built
                 \<and> filter_type built = None \<and> window_type built = None
                 \<and> weight_type built = None"
    by (simp add: ProcessData_init_def check_filter_def check_pick_def check_window_def
          check_weight_def)
qed

theorem absent_axes_witness:
  "filter_traces sample_world new_object [sample_trace ''BHZ'' [1, 2]]
     = Inr [sample_trace ''BHZ'' [1, 2]]
   \<and> determine_window new_object ''STA'' sample_origin = (Inr (), new_object)
   \<and> cut_traces sample_world new_object ''STA'' [''units:m''] [sample_trace ''BHZ'' [1, 2]]
     = Inr [sample_trace ''BHZ'' [1, 2]]
   \<and> determine_weights new_object ''STA'' 200000 [''units:m''] [sample_trace ''BHZ'' [1, 2]]
     = Inr [(sample_trace ''BHZ'' [1, 2])\<lparr>weight := Some 1\<rparr>]
   \<and> (\<exists>built. ProcessData_init sample_world None (Some ''from_sac_metadata'') None None
                sample_parameters = Inr built
              \<and> filter_type built = None \<and> window_type built = None
              \<and> weight_type built = None)
   \<and> ProcessData_init sample_world None None None None sample_parameters = Inl Exception"
proof -
  have ft: "filter_type new_object = None" and wt: "window_type new_object = None"
    and gt: "weight_type new_object = None"
    by (simp_all add: new_object_def)
  have wl: "sample_parameters ''window_length'' = Some (Num 15)"
    by (simp add: sample_parameters_def)
  note inst = absent_axes[where parameters = sample_parameters and self = new_object
      and w = sample_world and traces' = "[sample_trace ''BHZ'' [1, 2]]" and v = "Num 15"
      and id' = "''STA''" and origin' = sample_origin and tags' = "[''units:m'']"
      and distance_in_m = 200000 and filter_type' = None and window_type' = None
      and weight_type' = None]
  from inst ft have a: "filter_traces sample_world new_object [sample_trace ''BHZ'' [1, 2]]
     = Inr [sample_trace ''BHZ'' [1, 2]]" by blast
  from inst wt have b: "determine_window new_object ''STA'' sample_origin = (Inr (), new_object)"
    and c: "cut_traces sample_world new_object ''STA'' [''units:m''] [sample_trace ''BHZ'' [1, 2]]
     = Inr [sample_trace ''BHZ'' [1, 2]]" by blast+
  from inst gt have "determine_weights new_object ''STA'' 200000 [''units:m'']
       [sample_trace ''BHZ'' [1, 2]]
     = Inr (map (\<lambda>t. t\<lparr>weight := Some 1\<rparr>) [sample_trace ''BHZ'' [1, 2]])" by blast
  then have d: "determine_weights new_object ''STA'' 200000 [''units:m'']
       [sample_trace ''BHZ'' [1, 2]]
     = Inr [(sample_trace ''BHZ'' [1, 2])\<lparr>weight := Some 1\<rparr>]" by simp
  from inst wl have e: "\<exists>built. ProcessData_init sample_world None (Some ''from_sac_metadata'')
                None None sample_parameters = Inr built
              \<and> filter_type built = None \<and> window_type built = None
              \<and> weight_type built = None" by blast
  have "check_filter None sample_parameters new_object
      = Inr (sample_parameters, new_object\<lparr>filter_type := None\<rparr>)"
    by (simp add: check_filter_def)
  with inst have f: "ProcessData_init sample_world None None None None sample_parameters
     = Inl Exception" by simp
  from a b c d e f show ?thesis by (intro conjI)
qed

section \<open>Properties of the caches\<close>

lemma first_call:
  "snd (ProcessData_call sample_world sample_object first_bundle None None False) = cached_object"
  by (simp add: ProcessData_call_def first_bundle_def sample_stream_def sample_world_def
        sample_origin_def sample_station_def convert_units_def filter_traces_def
        to_displacement_def determine_picks_def determine_window_def cut_traces_def
        cut_bounds_def taper_traces_def truthy_def set_P_def set_S_def pick_entry_def
        empty_pick_def cap_window_def num_of_def sample_object_def sample_trace_def
        cached_object_def Let_def split: sum.split)

lemma determine_picks_cached:
  "picks self id' = Some pk \<Longrightarrow>
   determine_picks w self id' origin' distance_in_m traces' = (Inr (), self)"
  by (simp add: determine_picks_def)

lemma determine_window_cached:
  "windows self id' = Some window \<Longrightarrow> determine_window self id' origin' = (Inr (), self)"
  by (simp add: determine_window_def)

lemma call_keeps_object:
  assumes "\<And>origin' distance_in_m traces'.
             determine_picks w self id' origin' distance_in_m traces' = (Inr (), self)"
    and "\<And>origin'. determine_window self id' origin' = (Inr (), self)"
    and "stream_id bundle = Some id'"
  shows "snd (ProcessData_call w self bundle station_arg origin_arg overwrite) = self"
  by (simp add: ProcessData_call_def Let_def assms
        split: option.split list.split sum.split prod.split)


lemma cut_bounds_cached:
  "windows self id' = Some window \<Longrightarrow> ''type:greens'' \<notin> set tags' \<Longrightarrow>
   cut_bounds self id' tags' = Inr window"
  by (simp add: cut_bounds_def)

lemma cut_bounds_cached_greens:
  "windows self id' = Some window \<Longrightarrow> ''type:greens'' \<in> set tags' \<Longrightarrow>
   padding_length self = Some (Num pad) \<Longrightarrow>
   cut_bounds self id' tags' = Inr (fst window - pad, snd window + pad)"
  by (simp add: cut_bounds_def num_of_def)

text \<open>
  C2: for a processor with a pick type and a window type, once the caches hold a pick record
  and a window for an identifier, a call on any bundle with that identifier leaves the object,
  and with it both caches, as it was, whatever the bundle holds and whether the call returns
  or raises; the pick stage and the window stage compute nothing, and the bounds of the cut
  are those of the cached window (widened by the padding for Green's functions).
\<close>

theorem cache_reuse:
  assumes "truthy (pick_type self)" and "truthy (window_type self)"
    and "picks self id' = Some pk" and "windows self id' = Some window"
    and "stream_id bundle = Some id'"
  shows "snd (ProcessData_call w self bundle station_arg origin_arg overwrite) = self
       \<and> determine_picks w self id' origin' distance_in_m traces' = (Inr (), self)
       \<and> determine_window self id' origin' = (Inr (), self)
       \<and> (''type:greens'' \<notin> set tags' \<longrightarrow> cut_bounds self id' tags' = Inr window)
       \<and> (''type:greens'' \<in> set tags' \<longrightarrow> padding_length self = Some (Num pad) \<longrightarrow>
            cut_bounds self id' tags' = Inr (fst window - pad, snd window + pad))"
proof (intro conjI impI)
  show "snd (ProcessData_call w self bundle station_arg origin_arg overwrite) = self"
    by (rule call_keeps_object)
       (simp_all add: determine_picks_cached[OF assms(3)] determine_window_cached[OF assms(4)]
          assms(5))
  show "determine_picks w self id' origin' distance_in_m traces' = (Inr (), self)"
    by (rule determine_picks_cached[OF assms(3)])
  show "determine_window self id' origin' = (Inr (), self)"
    by (rule determine_window_cached[OF assms(4)])
next
  assume "''type:greens'' \<notin> set tags'"
  with assms(4) show "cut_bounds self id' tags' = Inr window" by (rule cut_bounds_cached)
next
  assume "''type:greens'' \<in> set tags'" "padding_length self = Some (Num pad)"
  with assms(4) show "cut_bounds self id' tags' = Inr (fst window - pad, snd window + pad)"
    by (rule cut_bounds_cached_greens)
qed

theorem cache_reuse_witness:
  "snd (ProcessData_call sample_world sample_object first_bundle None None False) = cached_object
   \<and> snd (ProcessData_call sample_world cached_object second_bundle None None False)
       = cached_object
   \<and> determine_picks sample_world cached_object ''STA'' sample_origin 200000
       (traces second_bundle) = (Inr (), cached_object)
   \<and> determine_window cached_object ''STA'' sample_origin = (Inr (), cached_object)
   \<and> cut_bounds cached_object ''STA'' [''units:m'', ''type:displacement''] = Inr (1024, 1039)"
proof -
  have pt: "truthy (pick_type cached_object)" and wt: "truthy (window_type cached_object)"
    by (simp_all add: cached_object_def sample_object_def truthy_def)
  have pk: "picks cached_object ''STA'' = Some \<lparr>pick_P = Some 30, pick_S = Some 50\<rparr>"
    and win: "windows cached_object ''STA'' = Some (1024, 1039)"
    by (simp_all add: cached_object_def)
  have sid: "stream_id second_bundle = Some ''STA''"
    by (simp add: second_bundle_def sample_stream_def)
  have ng: "''type:greens'' \<notin> set [''units:m'', ''type:displacement'']" by simp
  note inst = cache_reuse[OF pt wt pk win sid, of sample_world None None False sample_origin
      200000 "traces second_bundle" "[''units:m'', ''type:displacement'']" 0]
  from inst ng have
    "snd (ProcessData_call sample_world cached_object second_bundle None None False)
       = cached_object"
    "determine_picks sample_world cached_object ''STA'' sample_origin 200000
       (traces second_bundle) = (Inr (), cached_object)"
    "determine_window cached_object ''STA'' sample_origin = (Inr (), cached_object)"
    "cut_bounds cached_object ''STA'' [''units:m'', ''type:displacement''] = Inr (1024, 1039)"
    by blast+
  with first_call show ?thesis by (intro conjI)
qed

end
